theory Spec2Isabelle
  imports Main "HOL-Library.Sublist" "HOL-Library.Code_Target_Numeral"
begin

text \<open>
  The ctags parser of arduino-cli (package \<^verbatim>\<open>ctags\<close>): the rows of the tag
  indexer are parsed into tags, a fixed sequence of passes marks tags as skipped
  and derives their prototype text and modifiers, and the surviving tags become
  the prototypes to insert into the sketch. The first part of this theory is the
  model of the source, the second the example data and the notions used in the
  statements, the third the theorems.
\<close>

section \<open>Go strings as byte lists\<close>

text \<open>
  A Go \<^verbatim>\<open>string\<close> is a sequence of bytes; it is modelled as a \<^typ>\<open>string\<close>
  (a list of 8-bit characters). The functions of package \<^verbatim>\<open>strings\<close> and
  \<^verbatim>\<open>strconv\<close> that the parser calls are written out here with the behaviour
  the Go documentation gives them.
\<close>

abbreviation TAB :: char where "TAB \<equiv> CHR 0x09"
abbreviation NL :: char where "NL \<equiv> CHR 0x0A"
abbreviation BACKSLASH :: char where "BACKSLASH \<equiv> CHR 0x5C"
abbreviation DQUOTE :: char where "DQUOTE \<equiv> CHR 0x22"

text \<open>\<^verbatim>\<open>strings.Index(s, sub)\<close>: the first position of \<open>sub\<close> in \<open>s\<close>;
  \<open>None\<close> stands for Go's \<open>-1\<close>.\<close>

fun Index :: "string \<Rightarrow> string \<Rightarrow> nat option" where
  "Index [] sub = (if sub = [] then Some 0 else None)"
| "Index (c # cs) sub =
     (if prefix sub (c # cs) then Some 0 else map_option Suc (Index cs sub))"

text \<open>\<^verbatim>\<open>strings.LastIndex(s, sub)\<close>: the last position of \<open>sub\<close> in \<open>s\<close>.\<close>

fun LastIndex :: "string \<Rightarrow> string \<Rightarrow> nat option" where
  "LastIndex [] sub = (if sub = [] then Some 0 else None)"
| "LastIndex (c # cs) sub =
     (case LastIndex cs sub of
        Some i \<Rightarrow> Some (Suc i)
      | None \<Rightarrow> if prefix sub (c # cs) then Some 0 else None)"

definition Contains :: "string \<Rightarrow> string \<Rightarrow> bool" where
  "Contains s sub = (Index s sub \<noteq> None)"

text \<open>\<^verbatim>\<open>strings.Split(s, sep)\<close> for a separator of one byte, the only kind the
  source uses (\<^verbatim>\<open>"\n"\<close> and \<^verbatim>\<open>"\t"\<close>). The result always has at least one
  element.\<close>

fun Split :: "string \<Rightarrow> char \<Rightarrow> string list" where
  "Split [] sep = [[]]"
| "Split (c # cs) sep =
     (if c = sep then [] # Split cs sep
      else (case Split cs sep of
              [] \<Rightarrow> [[c]]
            | r # rs \<Rightarrow> (c # r) # rs))"

text \<open>\<^verbatim>\<open>strings.ReplaceAll(s, old, new)\<close>: the non-overlapping occurrences of
  \<open>old\<close> are replaced from left to right. The source only passes a non-empty
  \<open>old\<close>; for an empty one this function returns \<open>s\<close> (Go would insert \<open>new\<close>
  between the runes), and no definition below reaches that case.\<close>

function ReplaceAll :: "string \<Rightarrow> string \<Rightarrow> string \<Rightarrow> string" where
  "ReplaceAll [] old new = []"
| "ReplaceAll (c # cs) old new =
     (if old \<noteq> [] \<and> prefix old (c # cs)
      then new @ ReplaceAll (drop (length old) (c # cs)) old new
      else c # ReplaceAll cs old new)"
  by pat_completeness auto
termination
  by (relation "measure (\<lambda>(s, old, new). length s)") (auto simp: prefix_def)

text \<open>The UTF-8 encodings of the code points for which \<^verbatim>\<open>unicode.IsSpace\<close>
  holds: the six ASCII ones, U+0085, U+00A0, U+1680, U+2000 to U+200A, U+2028,
  U+2029, U+202F, U+205F and U+3000.\<close>

definition space_runes :: "string list" where
  "space_runes =
     [[CHR 0x09], [CHR 0x0A], [CHR 0x0B], [CHR 0x0C], [CHR 0x0D], [CHR 0x20],
      [CHR 0xC2, CHR 0x85], [CHR 0xC2, CHR 0xA0],
      [CHR 0xE1, CHR 0x9A, CHR 0x80],
      [CHR 0xE2, CHR 0x80, CHR 0x80], [CHR 0xE2, CHR 0x80, CHR 0x81],
      [CHR 0xE2, CHR 0x80, CHR 0x82], [CHR 0xE2, CHR 0x80, CHR 0x83],
      [CHR 0xE2, CHR 0x80, CHR 0x84], [CHR 0xE2, CHR 0x80, CHR 0x85],
      [CHR 0xE2, CHR 0x80, CHR 0x86], [CHR 0xE2, CHR 0x80, CHR 0x87],
      [CHR 0xE2, CHR 0x80, CHR 0x88], [CHR 0xE2, CHR 0x80, CHR 0x89],
      [CHR 0xE2, CHR 0x80, CHR 0x8A],
      [CHR 0xE2, CHR 0x80, CHR 0xA8], [CHR 0xE2, CHR 0x80, CHR 0xA9],
      [CHR 0xE2, CHR 0x80, CHR 0xAF],
      [CHR 0xE2, CHR 0x81, CHR 0x9F],
      [CHR 0xE3, CHR 0x80, CHR 0x80]]"

text \<open>The number of bytes of the white-space rune that \<open>s\<close> starts with when its
  candidates are \<open>ws\<close>, and 0 when it starts with none.\<close>

fun spaceWidth :: "string list \<Rightarrow> string \<Rightarrow> nat" where
  "spaceWidth [] s = 0"
| "spaceWidth (w # ws) s = (if w \<noteq> [] \<and> prefix w s then length w else spaceWidth ws s)"

function trimFront :: "string list \<Rightarrow> string \<Rightarrow> string" where
  "trimFront ws s =
     (if spaceWidth ws s = 0 then s else trimFront ws (drop (spaceWidth ws s) s))"
  by pat_completeness auto

lemma spaceWidth_pos: "0 < spaceWidth ws s \<Longrightarrow> s \<noteq> []"
  by (induction ws) (auto split: if_splits)

termination trimFront
proof (relation "measure (\<lambda>(ws, s). length s)")
  show "wf (measure (\<lambda>(ws, s). length s))" by simp
next
  fix ws :: "string list" and s :: string
  assume "spaceWidth ws s \<noteq> 0"
  then have "0 < spaceWidth ws s" by simp
  then have "s \<noteq> []" by (rule spaceWidth_pos)
  with \<open>0 < spaceWidth ws s\<close>
  show "((ws, drop (spaceWidth ws s) s), (ws, s)) \<in> measure (\<lambda>(ws, s). length s)"
    by (cases s) auto
qed

declare trimFront.simps [simp del]

text \<open>\<^verbatim>\<open>strings.TrimSpace(s)\<close>: the leading and the trailing white-space runes
  are removed. Go decodes the trailing runes backwards; a white-space rune is
  the last rune of \<open>s\<close> exactly when its encoding is a suffix of \<open>s\<close>, which is
  what trimming the reversed string by the reversed encodings computes.\<close>

definition TrimSpace :: "string \<Rightarrow> string" where
  "TrimSpace s = rev (trimFront (map rev space_runes) (rev (trimFront space_runes s)))"

text \<open>\<^verbatim>\<open>strconv.Atoi(s)\<close> on a platform whose \<^verbatim>\<open>int\<close> has 64 bits. The result
  is the pair of Go's two results: the value, and the error (\<open>None\<close> is \<^verbatim>\<open>nil\<close>).
  A string that is not an optional sign followed by decimal digits gives 0 and
  a syntax error; a number that does not fit gives the nearest bound and a
  range error. The digits are read from the left and the range error is raised
  at the digit that overflows 64 unsigned bits, before the rest is looked at.\<close>

datatype num_error = ErrSyntax | ErrRange

definition isDigit :: "char \<Rightarrow> bool" where
  "isDigit c = (48 \<le> (of_char c :: nat) \<and> (of_char c :: nat) \<le> 57)"

fun ParseUint_loop :: "string \<Rightarrow> nat \<Rightarrow> nat \<times> num_error option" where
  "ParseUint_loop [] n = (n, None)"
| "ParseUint_loop (c # cs) n =
     (if \<not> isDigit c then (0, Some ErrSyntax)
      else if 2 ^ 64 - 1 < n * 10 + ((of_char c :: nat) - 48) then (2 ^ 64 - 1, Some ErrRange)
      else ParseUint_loop cs (n * 10 + ((of_char c :: nat) - 48)))"

definition ParseUint :: "string \<Rightarrow> nat \<times> num_error option" where
  "ParseUint s = (if s = [] then (0, Some ErrSyntax) else ParseUint_loop s 0)"

definition ParseInt :: "string \<Rightarrow> int \<times> num_error option" where
  "ParseInt s =
     (if s = [] then (0, Some ErrSyntax)
      else
        let neg = (hd s = CHR ''-'');
            body = (if hd s = CHR ''+'' \<or> hd s = CHR ''-'' then tl s else s);
            (un, err) = ParseUint body
        in if err = Some ErrSyntax then (0, err)
           else if \<not> neg \<and> 2 ^ 63 \<le> un then (2 ^ 63 - 1, Some ErrRange)
           else if neg \<and> 2 ^ 63 < un then (- (2 ^ 63), Some ErrRange)
           else (if neg then - int un else int un, None))"

definition Atoi :: "string \<Rightarrow> int \<times> num_error option" where
  "Atoi s = ParseInt s"

section \<open>Tag records and their parsing\<close>

text \<open>The constants of the source file.\<close>

definition kindPrototype :: string where "kindPrototype = ''prototype''"
definition keywordTemplate :: string where "keywordTemplate = ''template''"
definition keywordStatic :: string where "keywordStatic = ''static''"
definition keywordExternC :: string where
  "keywordExternC = ''extern '' @ [DQUOTE, CHR ''C'', DQUOTE]"

text \<open>The map \<^verbatim>\<open>knownTagKinds\<close>; a key that is absent reads as \<open>False\<close>, as a
  Go \<^verbatim>\<open>map[string]bool\<close> does.\<close>

definition knownTagKinds :: "string \<Rightarrow> bool" where
  "knownTagKinds = (\<lambda>_. False)(''prototype'' := True, ''function'' := True)"

text \<open>The struct \<^verbatim>\<open>Tag\<close>, with the fields and the order of the source. \<^verbatim>\<open>Line\<close>
  is a Go \<^verbatim>\<open>int\<close>; every value stored in it comes from \<open>Atoi\<close> and lies in the
  64-bit range.\<close>

record Tag =
  FunctionName :: string
  Kind :: string
  Line :: int
  Code :: string
  Class :: string
  Struct :: string
  Namespace :: string
  Filename :: string
  Typeref :: string
  SkipMe :: bool
  Signature :: string
  Prototype :: string
  PrototypeModifiers :: string

text \<open>\<^verbatim>\<open>&Tag{}\<close>: every field has the zero value of its type.\<close>

definition emptyTag :: Tag where
  "emptyTag = \<lparr>FunctionName = [], Kind = [], Line = 0, Code = [], Class = [],
     Struct = [], Namespace = [], Filename = [], Typeref = [], SkipMe = False,
     Signature = [], Prototype = [], PrototypeModifiers = []\<rparr>"

text \<open>The run-time panics of Go that the parser can raise.\<close>

datatype panic = IndexOutOfRange | SliceBoundsOutOfRange

text \<open>The slice expression \<^verbatim>\<open>s[lo:hi]\<close>, which panics unless \<open>lo \<le> hi \<le> len(s)\<close>.\<close>

definition slice :: "string \<Rightarrow> nat \<Rightarrow> nat \<Rightarrow> panic + string" where
  "slice s lo hi =
     (if lo \<le> hi \<and> hi \<le> length s then Inr (take (hi - lo) (drop lo s))
      else Inl SliceBoundsOutOfRange)"

text \<open>One round of the loop of \<^verbatim>\<open>parseTag\<close> over the fields after the second:
  the state is the tag and the local variable \<^verbatim>\<open>returntype\<close>. The error of
  \<^verbatim>\<open>strconv.Atoi\<close> is dropped, as in the source.\<close>

definition parseField :: "string \<Rightarrow> Tag \<times> string \<Rightarrow> Tag \<times> string" where
  "parseField part st =
     (case st of (tag, returntype) \<Rightarrow>
        (case Index part '':'' of
           None \<Rightarrow> (tag, returntype)
         | Some colon \<Rightarrow>
             (let field = take colon part;
                  val = TrimSpace (drop (Suc colon) part)
              in if field = ''kind'' then (tag\<lparr>Kind := val\<rparr>, returntype)
                 else if field = ''line'' then (tag\<lparr>Line := fst (Atoi val)\<rparr>, returntype)
                 else if field = ''typeref'' then (tag\<lparr>Typeref := val\<rparr>, returntype)
                 else if field = ''signature'' then (tag\<lparr>Signature := val\<rparr>, returntype)
                 else if field = ''returntype'' then (tag, val)
                 else if field = ''class'' then (tag\<lparr>Class := val\<rparr>, returntype)
                 else if field = ''struct'' then (tag\<lparr>Struct := val\<rparr>, returntype)
                 else if field = ''namespace'' then (tag\<lparr>Namespace := val\<rparr>, returntype)
                 else (tag, returntype))))"

text \<open>\<^verbatim>\<open>parseTag\<close>. \<^verbatim>\<open>parts[1]\<close> panics when the row has no tab, and the slice
  of the row between the two markers panics when its bounds are out of order.\<close>

definition parseTag :: "string \<Rightarrow> panic + Tag" where
  "parseTag row =
     (case Split row TAB of
        name # file # rest \<Rightarrow>
          (let tag0 = emptyTag\<lparr>FunctionName := name,
                 Filename := ReplaceAll file [BACKSLASH, BACKSLASH] [BACKSLASH]\<rparr>;
               st = fold parseField rest (tag0, []);
               tag1 = fst st;
               returntype = snd st;
               tag2 = tag1\<lparr>Prototype :=
                 returntype @ '' '' @ FunctionName tag1 @ Signature tag1 @ '';''\<rparr>
           in (case Index row ''/^'' of
                 None \<Rightarrow> Inr tag2
               | Some i \<Rightarrow>
                   (case Index row ''$/;'' of
                      None \<Rightarrow> Inr tag2
                    | Some j \<Rightarrow>
                        (case slice row (i + 2) j of
                           Inl e \<Rightarrow> Inl e
                         | Inr code \<Rightarrow> Inr (tag2\<lparr>Code := code\<rparr>)))))
      | _ \<Rightarrow> Inl IndexOutOfRange)"

definition removeEmpty :: "string list \<Rightarrow> string list" where
  "removeEmpty rows = filter (\<lambda>row. 0 < length row) (map TrimSpace rows)"

definition removeTralingSemicolon :: "string \<Rightarrow> panic + string" where
  "removeTralingSemicolon s =
     (if s = [] then Inl SliceBoundsOutOfRange else Inr (take (length s - 1) s))"

definition removeSpacesAndTabs :: "string \<Rightarrow> string" where
  "removeSpacesAndTabs s = ReplaceAll (ReplaceAll s '' '' []) [TAB] []"

definition isHandled :: "Tag \<Rightarrow> bool" where
  "isHandled tag =
     (if Class tag \<noteq> [] then False
      else if Struct tag \<noteq> [] then False
      else if Namespace tag \<noteq> [] then False
      else True)"

definition tagIsUnhandled :: "Tag \<Rightarrow> bool" where
  "tagIsUnhandled tag = (\<not> isHandled tag)"

definition tagIsUnknown :: "Tag \<Rightarrow> bool" where
  "tagIsUnknown tag = (\<not> knownTagKinds (Kind tag))"

section \<open>The passes of the parser\<close>

text \<open>
  Three functions that \<^verbatim>\<open>Parse\<close> and \<^verbatim>\<open>addPrototype\<close> call are not part of
  the source file: \<^verbatim>\<open>prototypeAndCodeDontMatch\<close> and \<^verbatim>\<open>findTemplateMultiline\<close>,
  which read the sketch from disk, and \<^verbatim>\<open>fixCLinkageTagsDeclarations\<close>. The first
  two are parameters of the model, and so is the test whether a tag's line lies
  inside an \<^verbatim>\<open>extern "C"\<close> block of the sketch. Every theorem below holds for all
  values of these parameters.
\<close>

record collaborators =
  prototypeAndCodeDontMatch :: "Tag \<Rightarrow> bool"
  findTemplateMultiline :: "Tag \<Rightarrow> string"
  insideExternC :: "Tag \<Rightarrow> bool"

text \<open>The tags are a Go slice of pointers to structs that no two positions
  share (each comes from its own call of \<^verbatim>\<open>parseTag\<close>), so a pass that writes
  to the tags in place is a function from the list of tags to the new list.\<close>

definition skipTagsWhere :: "(Tag \<Rightarrow> bool) \<Rightarrow> Tag list \<Rightarrow> Tag list" where
  "skipTagsWhere skipFunc ts =
     map (\<lambda>tag. if \<not> SkipMe tag then tag\<lparr>SkipMe := skipFunc tag\<rparr> else tag) ts"

definition addPrototype :: "collaborators \<Rightarrow> Tag \<Rightarrow> Tag" where
  "addPrototype env tag =
     (if Index (Prototype tag) keywordTemplate = Some 0 then
        (if Index (Code tag) keywordTemplate = Some 0 then
           (let code = Code tag;
                code' = (case Index code ''{'' of
                           Some i \<Rightarrow> take i code
                         | None \<Rightarrow>
                             (case LastIndex code '')'' of
                                Some j \<Rightarrow> take (j + 1) code
                              | None \<Rightarrow> take 0 code))
            in tag\<lparr>Prototype := code' @ '';''\<rparr>)
         else tag\<lparr>Prototype := findTemplateMultiline env tag @ '';''\<rparr>)
      else
        (let m0 = [];
             m1 = (if Contains (Code tag) (keywordStatic @ '' '')
                   then m0 @ '' '' @ keywordStatic else m0)
         in tag\<lparr>PrototypeModifiers := TrimSpace m1\<rparr>))"

definition addPrototypes :: "collaborators \<Rightarrow> Tag list \<Rightarrow> Tag list" where
  "addPrototypes env ts =
     map (\<lambda>tag. if \<not> SkipMe tag then addPrototype env tag else tag) ts"

text \<open>The first loop of \<^verbatim>\<open>removeDefinedProtypes\<close> fills the map
  \<^verbatim>\<open>definedPrototypes\<close>, the second one reads it.\<close>

fun collectDefined :: "(string \<Rightarrow> bool) \<Rightarrow> Tag list \<Rightarrow> (string \<Rightarrow> bool)" where
  "collectDefined definedPrototypes [] = definedPrototypes"
| "collectDefined definedPrototypes (tag # ts) =
     (if Kind tag = kindPrototype
      then collectDefined (definedPrototypes(Prototype tag := True)) ts
      else collectDefined definedPrototypes ts)"

definition removeDefinedProtypes :: "Tag list \<Rightarrow> Tag list" where
  "removeDefinedProtypes ts =
     (let definedPrototypes = collectDefined (\<lambda>_. False) ts
      in map (\<lambda>tag. if definedPrototypes (Prototype tag) then tag\<lparr>SkipMe := True\<rparr> else tag) ts)"

fun skipDuplicates_loop :: "(string \<Rightarrow> bool) \<Rightarrow> Tag list \<Rightarrow> Tag list" where
  "skipDuplicates_loop definedPrototypes [] = []"
| "skipDuplicates_loop definedPrototypes (tag # ts) =
     (if \<not> definedPrototypes (Prototype tag) \<and> \<not> SkipMe tag
      then tag # skipDuplicates_loop (definedPrototypes(Prototype tag := True)) ts
      else tag\<lparr>SkipMe := True\<rparr> # skipDuplicates_loop definedPrototypes ts)"

definition skipDuplicates :: "Tag list \<Rightarrow> Tag list" where
  "skipDuplicates ts = skipDuplicates_loop (\<lambda>_. False) ts"

text \<open>Modelled from the spec: \<^verbatim>\<open>fixCLinkageTagsDeclarations\<close> is called by
  \<^verbatim>\<open>Parse\<close> and is not in the source file. Section 4.2, stage 7: for a record
  inside an \<^verbatim>\<open>extern "C" { ... }\<close> block the linkage modifier gets \<^verbatim>\<open>extern "C"\<close>
  prepended; like every stage but two it leaves skipped records alone.\<close>

definition fixCLinkageTagsDeclarations :: "collaborators \<Rightarrow> Tag list \<Rightarrow> Tag list" where
  "fixCLinkageTagsDeclarations env ts =
     map (\<lambda>tag. if \<not> SkipMe tag \<and> insideExternC env tag
                then tag\<lparr>PrototypeModifiers := keywordExternC @ '' '' @ PrototypeModifiers tag\<rparr>
                else tag) ts"

text \<open>The seven passes in the order in which \<^verbatim>\<open>Parse\<close> runs them; \<open>stage env k ts\<close>
  is the list of tags after the first \<open>k\<close> of them, which is what pass \<open>k + 1\<close>
  reads.\<close>

definition passes :: "collaborators \<Rightarrow> (Tag list \<Rightarrow> Tag list) list" where
  "passes env =
     [skipTagsWhere tagIsUnknown,
      skipTagsWhere tagIsUnhandled,
      addPrototypes env,
      removeDefinedProtypes,
      skipDuplicates,
      skipTagsWhere (prototypeAndCodeDontMatch env),
      fixCLinkageTagsDeclarations env]"

definition stage :: "collaborators \<Rightarrow> nat \<Rightarrow> Tag list \<Rightarrow> Tag list" where
  "stage env k ts = fold (\<lambda>pass s. pass s) (take k (passes env)) ts"

definition runPasses :: "collaborators \<Rightarrow> Tag list \<Rightarrow> Tag list" where
  "runPasses env ts =
     fixCLinkageTagsDeclarations env
       (skipTagsWhere (prototypeAndCodeDontMatch env)
         (skipDuplicates
           (removeDefinedProtypes
             (addPrototypes env
               (skipTagsWhere tagIsUnhandled
                 (skipTagsWhere tagIsUnknown ts))))))"

section \<open>The parser and its entry point\<close>

text \<open>The struct \<^verbatim>\<open>Parser\<close>; the path of the main file is modelled as its
  string.\<close>

record Parser =
  tags :: "Tag list"
  mainFile :: string

text \<open>A parser as the composite literal \<^verbatim>\<open>Parser{}\<close> makes it.\<close>

definition newParser :: Parser where
  "newParser = \<lparr>tags = [], mainFile = []\<rparr>"

text \<open>Modelled from the spec: the type \<^verbatim>\<open>Prototype\<close> is not in the source file.
  Section 3: function name, final prototype text, modifier text and original line
  number.\<close>

record PrototypeRecord =
  protoName :: string
  protoText :: string
  protoModifiers :: string
  protoLine :: int

text \<open>Modelled from the spec: \<^verbatim>\<open>toPrototypes\<close> is called by \<^verbatim>\<open>Parse\<close> and is not
  in the source file. Section 4.4: the records with skip=false, in their order,
  are projected one to one.\<close>

definition toPrototypes :: "Parser \<Rightarrow> PrototypeRecord list" where
  "toPrototypes p =
     map (\<lambda>tag. \<lparr>protoName = FunctionName tag, protoText = Prototype tag,
                  protoModifiers = PrototypeModifiers tag, protoLine = Line tag\<rparr>)
       (filter (\<lambda>tag. \<not> SkipMe tag) (tags p))"

text \<open>Modelled from the spec: \<^verbatim>\<open>findLineWhereToInsertPrototypes\<close> is called by
  \<^verbatim>\<open>Parse\<close> and is not in the source file. Section 4.3: the smallest original
  line number among the records with skip=false that belong to the main file,
  and an explicit absent value when there is none. In the Go source \<^verbatim>\<open>Parse\<close>
  passes the result on as an \<^verbatim>\<open>int\<close>; which \<^verbatim>\<open>int\<close> stands for "no line" is
  decided inside the missing function, so the model keeps the absent value of
  the spec.\<close>

definition survivingLines :: "Parser \<Rightarrow> int list" where
  "survivingLines p =
     map Line (filter (\<lambda>tag. \<not> SkipMe tag \<and> Filename tag = mainFile p) (tags p))"

definition findLineWhereToInsertPrototypes :: "Parser \<Rightarrow> int option" where
  "findLineWhereToInsertPrototypes p =
     (case survivingLines p of
        [] \<Rightarrow> None
      | l # ls \<Rightarrow> Some (fold min ls l))"

text \<open>The loop of \<^verbatim>\<open>Parse\<close> that appends the tag of every row to \<^verbatim>\<open>p.tags\<close>; a
  panic of \<^verbatim>\<open>parseTag\<close> ends the run.\<close>

fun parseRows :: "Tag list \<Rightarrow> string list \<Rightarrow> panic + Tag list" where
  "parseRows acc [] = Inr acc"
| "parseRows acc (row # rows) =
     (case parseTag row of
        Inl e \<Rightarrow> Inl e
      | Inr tag \<Rightarrow> parseRows (acc @ [tag]) rows)"

text \<open>\<^verbatim>\<open>Parse\<close>. The result is the panic, or the parser as the run leaves it
  together with the two values returned.\<close>

definition Parse ::
  "collaborators \<Rightarrow> Parser \<Rightarrow> string \<Rightarrow> string \<Rightarrow>
     panic + (Parser \<times> PrototypeRecord list \<times> int option)" where
  "Parse env p ctagsOutput mainFile' =
     (let rows = removeEmpty (Split ctagsOutput NL)
      in (case parseRows (tags p) rows of
            Inl e \<Rightarrow> Inl e
          | Inr ts \<Rightarrow>
              (let p' = \<lparr>tags = runPasses env ts, mainFile = mainFile'\<rparr>
               in Inr (p', toPrototypes p', findLineWhereToInsertPrototypes p'))))"

section \<open>Example data\<close>

text \<open>Modelled from the spec: collaborators for the examples. Section 4.2, stage 6
  leaves the comparison of prototype and code to the implementer and names
  comparing after stripping all white space; the examples have no template
  that spans several lines and no \<^verbatim>\<open>extern "C"\<close> block.\<close>

definition exampleDontMatch :: "Tag \<Rightarrow> bool" where
  "exampleDontMatch tag =
     (case removeTralingSemicolon (removeSpacesAndTabs (Prototype tag)) of
        Inl _ \<Rightarrow> True
      | Inr prototype \<Rightarrow> \<not> Contains (removeSpacesAndTabs (Code tag)) prototype)"

definition exampleEnv :: collaborators where
  "exampleEnv = \<lparr>prototypeAndCodeDontMatch = exampleDontMatch,
     findTemplateMultiline = (\<lambda>_. []), insideExternC = (\<lambda>_. False)\<rparr>"

text \<open>A function \<^verbatim>\<open>foo\<close> defined at line 9 of \<^verbatim>\<open>main.ino\<close>, its explicit forward
  declaration at line 2, a method of the same name and signature in a class, a
  second definition of it marked \<^verbatim>\<open>static\<close>, and a function \<^verbatim>\<open>bar\<close>.\<close>

definition tagFoo :: Tag where
  "tagFoo = \<lparr>FunctionName = ''foo'', Kind = ''function'', Line = 9,
     Code = ''void foo() {'', Class = [], Struct = [], Namespace = [],
     Filename = ''main.ino'', Typeref = [], SkipMe = False, Signature = ''()'',
     Prototype = ''void foo();'', PrototypeModifiers = []\<rparr>"

definition tagFooDecl :: Tag where
  "tagFooDecl = tagFoo\<lparr>Kind := ''prototype'', Line := 2, Code := ''void foo();''\<rparr>"

definition tagFooMethod :: Tag where
  "tagFooMethod = tagFoo\<lparr>Line := 4, Class := ''Bar''\<rparr>"

definition tagFooStatic :: Tag where
  "tagFooStatic = tagFoo\<lparr>Line := 12, Code := ''static void foo() {''\<rparr>"

definition tagBar :: Tag where
  "tagBar = tagFoo\<lparr>FunctionName := ''bar'', Line := 5, Code := ''int bar(int x) {'',
     Signature := ''(int x)'', Prototype := ''int bar(int x);''\<rparr>"

text \<open>The rows of indexer output that \<^verbatim>\<open>parseTag\<close> turns into these tags.\<close>

definition tagRow :: "string \<Rightarrow> string \<Rightarrow> string list \<Rightarrow> string" where
  "tagRow name code keyValues =
     name @ [TAB] @ ''main.ino'' @ [TAB] @ ''/^'' @ code @ ''$/;'' @ [DQUOTE]
     @ concat (map (\<lambda>kv. TAB # kv) keyValues)"

definition rowFoo :: string where
  "rowFoo = tagRow ''foo'' ''void foo() {''
     [''kind:function'', ''line:9'', ''signature:()'', ''returntype:void'']"

definition rowFooDecl :: string where
  "rowFooDecl = tagRow ''foo'' ''void foo();''
     [''kind:prototype'', ''line:2'', ''signature:()'', ''returntype:void'']"

definition rowFooMethod :: string where
  "rowFooMethod = tagRow ''foo'' ''void foo() {''
     [''kind:function'', ''line:4'', ''class:Bar'', ''signature:()'', ''returntype:void'']"


definition rowBar :: string where
  "rowBar = tagRow ''bar'' ''int bar(int x) {''
     [''kind:function'', ''line:5'', ''signature:(int x)'', ''returntype:int'']"

text \<open>The function template of the spec's example, the same template with its
  brace on the next line, and the row of the first.\<close>

definition tagMax :: Tag where
  "tagMax = tagFoo\<lparr>FunctionName := ''max'', Line := 3,
     Code := ''template <typename T> T max(T a, T b) {'', Signature := ''(T a, T b)'',
     Prototype := ''template <typename T> T max(T a, T b);''\<rparr>"

definition tagMaxNoBrace :: Tag where
  "tagMaxNoBrace = tagMax\<lparr>Code := ''template <typename T> T max(T a, T b)''\<rparr>"

definition rowMax :: string where
  "rowMax = tagRow ''max'' ''template <typename T> T max(T a, T b) {''
     [''kind:function'', ''line:3'', ''signature:(T a, T b)'',
      ''returntype:template <typename T> T'']"

text \<open>A parser as a first run on \<^verbatim>\<open>bar\<close> leaves it, and a parser that holds three
  surviving records of the main file, at lines 12, 45 and 7.\<close>

definition usedParser :: Parser where
  "usedParser = \<lparr>tags = [tagBar], mainFile = ''main.ino''\<rparr>"

definition threeSurvivors :: Parser where
  "threeSurvivors =
     \<lparr>tags = [tagFoo\<lparr>Line := 12\<rparr>, tagBar\<lparr>Line := 45\<rparr>, tagMax\<lparr>Line := 7\<rparr>],
      mainFile = ''main.ino''\<rparr>"

text \<open>Four rows of one run: three functions of the main file at lines 12, 45 and
  7 and one function of a header at line 3, with the tags of the last two.\<close>

definition tagBaz :: Tag where
  "tagBaz = tagFoo\<lparr>FunctionName := ''baz'', Line := 7, Code := ''void baz() {'',
     Prototype := ''void baz();''\<rparr>"

definition tagUtil :: Tag where
  "tagUtil = tagFoo\<lparr>FunctionName := ''util'', Line := 3, Code := ''void util() {'',
     Filename := ''util.h'', Prototype := ''void util();''\<rparr>"

definition linesOutput :: string where
  "linesOutput =
     tagRow ''foo'' ''void foo() {''
       [''kind:function'', ''line:12'', ''signature:()'', ''returntype:void'']
     @ [NL]
     @ tagRow ''bar'' ''int bar(int x) {''
       [''kind:function'', ''line:45'', ''signature:(int x)'', ''returntype:int'']
     @ [NL]
     @ ''util'' @ [TAB] @ ''util.h'' @ [TAB] @ ''/^void util() {$/;'' @ [DQUOTE, TAB]
     @ ''kind:function'' @ [TAB] @ ''line:3'' @ [TAB] @ ''signature:()'' @ [TAB]
     @ ''returntype:void''
     @ [NL]
     @ tagRow ''baz'' ''void baz() {''
       [''kind:function'', ''line:7'', ''signature:()'', ''returntype:void'']"

text \<open>A row whose line number is no number, and a row of three fields whose
  \<^verbatim>\<open>line\<close> value is the two markers in the wrong order.\<close>

definition rowMalformedLine :: string where
  "rowMalformedLine = tagRow ''foo'' ''void foo() {''
     [''kind:function'', ''line:12x'', ''signature:()'', ''returntype:void'']"

definition rowMarkersInLine :: string where
  "rowMarkersInLine = ''foo'' @ [TAB] @ ''main.ino'' @ [TAB] @ ''line:$/;/^''"

text \<open>A row whose line number is negative.\<close>

definition rowNegativeLine :: string where
  "rowNegativeLine = tagRow ''foo'' ''void foo() {''
     [''kind:function'', ''line:-5'', ''signature:()'', ''returntype:void'']"

text \<open>A row of four fields in which \<^verbatim>\<open>$/;\<close> stands before \<^verbatim>\<open>/^\<close>.\<close>

definition misorderedRow :: string where
  "misorderedRow = ''f'' @ [TAB] @ ''g'' @ [TAB] @ ''$/;'' @ [TAB] @ ''/^x''"

section \<open>Notions used in the statements\<close>

text \<open>A pass keeps skipped records skipped when it returns as many records as it
  was given and every record that was skipped before is skipped after.\<close>

definition keepsSkipped :: "(Tag list \<Rightarrow> Tag list) \<Rightarrow> bool" where
  "keepsSkipped pass =
     (\<forall>ts. length (pass ts) = length ts
        \<and> (\<forall>i<length ts. SkipMe (ts ! i) \<longrightarrow> SkipMe (pass ts ! i)))"

text \<open>The number that a string of decimal digits denotes, read from the left, and
  the part of a string after its sign, for stating what \<open>Atoi\<close> computes.\<close>

definition digitStep :: "nat \<Rightarrow> char \<Rightarrow> nat" where
  "digitStep n c = n * 10 + ((of_char c :: nat) - 48)"

definition decimalValue :: "string \<Rightarrow> nat" where
  "decimalValue ds = foldl digitStep 0 ds"

definition unsignedPart :: "string \<Rightarrow> string" where
  "unsignedPart s =
     (if s \<noteq> [] \<and> (hd s = CHR ''+'' \<or> hd s = CHR ''-'') then tl s else s)"

text \<open>The line number that the fields after the second leave in a tag that starts
  with line \<open>l0\<close>: that of the last field with the key \<^verbatim>\<open>line\<close>. And the rows
  that become a record: at least two fields, and when both markers occur the
  first \<^verbatim>\<open>$/;\<close> does not start before the end of the first \<^verbatim>\<open>/^\<close>.\<close>

definition lineOfFields :: "string list \<Rightarrow> int \<Rightarrow> int" where
  "lineOfFields parts l0 =
     foldl (\<lambda>l part. if prefix ''line:'' part then fst (Atoi (TrimSpace (drop 5 part))) else l)
       l0 parts"

definition rowParses :: "string \<Rightarrow> bool" where
  "rowParses row =
     (2 \<le> length (Split row TAB)
      \<and> (case Index row ''/^'' of
            None \<Rightarrow> True
          | Some i \<Rightarrow> (case Index row ''$/;'' of None \<Rightarrow> True | Some j \<Rightarrow> i + 2 \<le> j)))"


section \<open>The example rows and their tags\<close>

lemma parseTag_rowFoo: "parseTag rowFoo = Inr tagFoo"
  by code_simp

lemma parseTag_rowFooDecl: "parseTag rowFooDecl = Inr tagFooDecl"
  by code_simp

lemma parseTag_rowFooMethod: "parseTag rowFooMethod = Inr tagFooMethod"
  by code_simp


lemma parseTag_rowBar: "parseTag rowBar = Inr tagBar"
  by code_simp

lemma parseTag_rowMax: "parseTag rowMax = Inr tagMax"
  by code_simp

section \<open>Rows that make the parser panic\<close>

lemma Split_no_sep: "sep \<notin> set s \<Longrightarrow> Split s sep = [s]"
  by (induction s) auto

lemma parseTag_without_tab: "TAB \<notin> set row \<Longrightarrow> parseTag row = Inl IndexOutOfRange"
  by (simp add: parseTag_def Split_no_sep)

lemma removeEmpty_foo: "removeEmpty (Split ''foo'' NL) = [''foo'']"
  by code_simp

text \<open>
  Claim C4: a line with fewer than two tab-separated fields is either rejected
  or given defaults, and no input makes the parser panic. The code does
  neither: \<^verbatim>\<open>parseTag\<close> reads \<^verbatim>\<open>parts[1]\<close> without looking at the number of
  fields, so the row \<^verbatim>\<open>foo\<close>, and with it the whole run of \<^verbatim>\<open>Parse\<close> on the
  output \<^verbatim>\<open>foo\<close>, ends in the panic "index out of range", whatever the parser
  held before and whatever the collaborators do.
\<close>

theorem parseTag_short_row_panics:
  "parseTag ''foo'' = Inl IndexOutOfRange \<and> Parse env p ''foo'' mf = Inl IndexOutOfRange"
proof -
  have row: "parseTag ''foo'' = Inl IndexOutOfRange"
    by (rule parseTag_without_tab) simp
  have "Parse env p ''foo'' mf = Inl IndexOutOfRange"
    unfolding Parse_def removeEmpty_foo by (simp add: row)
  with row show ?thesis by simp
qed

lemma removeEmpty_misordered: "removeEmpty (Split misorderedRow NL) = [misorderedRow]"
  by code_simp

lemma parseTag_misordered: "parseTag misorderedRow = Inl SliceBoundsOutOfRange"
  by code_simp

text \<open>
  Claim C9: the code snippet is the text between the first \<^verbatim>\<open>/^\<close> and the
  \<^verbatim>\<open>$/;\<close> that follows it, it is absent when a marker is missing, also when
  \<^verbatim>\<open>$/;\<close> only stands before the first \<^verbatim>\<open>/^\<close>, and parsing never crashes.
  The code takes the first \<^verbatim>\<open>$/;\<close> of the whole row, not the one that follows
  \<^verbatim>\<open>/^\<close>: in the row above the first \<^verbatim>\<open>$/;\<close> is at byte 4 and the first
  \<^verbatim>\<open>/^\<close> at byte 8, so the slice \<^verbatim>\<open>row[10:4]\<close> panics, and so does the run of
  \<^verbatim>\<open>Parse\<close> on that row.
\<close>

theorem parseTag_misordered_markers_panic:
  "Index misorderedRow ''$/;'' = Some 4 \<and> Index misorderedRow ''/^'' = Some 8
   \<and> parseTag misorderedRow = Inl SliceBoundsOutOfRange
   \<and> Parse env p misorderedRow mf = Inl SliceBoundsOutOfRange"
proof -
  have i: "Index misorderedRow ''$/;'' = Some 4" by code_simp
  have j: "Index misorderedRow ''/^'' = Some 8" by code_simp
  have "Parse env p misorderedRow mf = Inl SliceBoundsOutOfRange"
    unfolding Parse_def removeEmpty_misordered by (simp add: parseTag_misordered)
  with i j parseTag_misordered show ?thesis by simp
qed

section \<open>What each pass does to one record\<close>

lemma length_skipTagsWhere: "length (skipTagsWhere f ts) = length ts"
  by (simp add: skipTagsWhere_def)

lemma nth_skipTagsWhere:
  "i < length ts \<Longrightarrow>
   skipTagsWhere f ts ! i =
     (if \<not> SkipMe (ts ! i) then (ts ! i)\<lparr>SkipMe := f (ts ! i)\<rparr> else ts ! i)"
  by (simp add: skipTagsWhere_def)

lemma length_addPrototypes: "length (addPrototypes env ts) = length ts"
  by (simp add: addPrototypes_def)

lemma nth_addPrototypes:
  "i < length ts \<Longrightarrow>
   addPrototypes env ts ! i =
     (if \<not> SkipMe (ts ! i) then addPrototype env (ts ! i) else ts ! i)"
  by (simp add: addPrototypes_def)


lemma length_removeDefinedProtypes: "length (removeDefinedProtypes ts) = length ts"
  by (simp add: removeDefinedProtypes_def Let_def)

lemma nth_removeDefinedProtypes:
  "i < length ts \<Longrightarrow>
   removeDefinedProtypes ts ! i =
     (if collectDefined (\<lambda>_. False) ts (Prototype (ts ! i))
      then (ts ! i)\<lparr>SkipMe := True\<rparr> else ts ! i)"
  by (simp add: removeDefinedProtypes_def Let_def)

lemma length_skipDuplicates_loop: "length (skipDuplicates_loop d ts) = length ts"
  by (induction ts arbitrary: d) auto

lemma length_skipDuplicates: "length (skipDuplicates ts) = length ts"
  by (simp add: skipDuplicates_def length_skipDuplicates_loop)

lemma length_fixCLinkage: "length (fixCLinkageTagsDeclarations env ts) = length ts"
  by (simp add: fixCLinkageTagsDeclarations_def)

lemma nth_fixCLinkage:
  "i < length ts \<Longrightarrow>
   fixCLinkageTagsDeclarations env ts ! i =
     (if \<not> SkipMe (ts ! i) \<and> insideExternC env (ts ! i)
      then (ts ! i)\<lparr>PrototypeModifiers := keywordExternC @ '' '' @ PrototypeModifiers (ts ! i)\<rparr>
      else ts ! i)"
  by (simp add: fixCLinkageTagsDeclarations_def)

text \<open>The duplicate filter only writes the skip flag; the record at position \<open>i\<close>
  stays unskipped exactly when it was unskipped, its text was not in the map at
  the start, and no unskipped record before it has the same text.\<close>

lemma nth_skipDuplicates_loop:
  "i < length ts \<Longrightarrow>
   skipDuplicates_loop d ts ! i =
     (ts ! i)\<lparr>SkipMe :=
        \<not> (\<not> SkipMe (ts ! i) \<and> \<not> d (Prototype (ts ! i))
           \<and> (\<forall>j<i. \<not> SkipMe (ts ! j) \<longrightarrow> Prototype (ts ! j) \<noteq> Prototype (ts ! i)))\<rparr>"
proof (induction ts arbitrary: d i)
  case Nil
  then show ?case by simp
next
  case (Cons t ts)
  show ?case
  proof (cases i)
    case 0
    then show ?thesis by simp
  next
    case (Suc k)
    with Cons.prems have k: "k < length ts" by simp
    have split: "\<And>P. (\<forall>j<Suc k. P j) = (P 0 \<and> (\<forall>j<k. P (Suc j)))"
      by (metis less_Suc_eq_0_disj)
    show ?thesis
      using Cons.IH [OF k] Suc by (auto simp: split)
  qed
qed

lemma nth_skipDuplicates:
  "i < length ts \<Longrightarrow>
   skipDuplicates ts ! i =
     (ts ! i)\<lparr>SkipMe :=
        \<not> (\<not> SkipMe (ts ! i)
           \<and> (\<forall>j<i. \<not> SkipMe (ts ! j) \<longrightarrow> Prototype (ts ! j) \<noteq> Prototype (ts ! i)))\<rparr>"
  by (simp add: skipDuplicates_def nth_skipDuplicates_loop)

section \<open>The skip flag across the passes\<close>

lemma keepsSkipped_skipTagsWhere: "keepsSkipped (skipTagsWhere f)"
  by (simp add: keepsSkipped_def length_skipTagsWhere nth_skipTagsWhere)

lemma keepsSkipped_addPrototypes: "keepsSkipped (addPrototypes env)"
  by (simp add: keepsSkipped_def length_addPrototypes nth_addPrototypes)

lemma keepsSkipped_removeDefinedProtypes: "keepsSkipped removeDefinedProtypes"
  by (simp add: keepsSkipped_def length_removeDefinedProtypes nth_removeDefinedProtypes)

lemma keepsSkipped_skipDuplicates: "keepsSkipped skipDuplicates"
  by (simp add: keepsSkipped_def length_skipDuplicates nth_skipDuplicates)

lemma keepsSkipped_fixCLinkage: "keepsSkipped (fixCLinkageTagsDeclarations env)"
  by (simp add: keepsSkipped_def length_fixCLinkage nth_fixCLinkage)

lemma keepsSkipped_passes: "pass \<in> set (passes env) \<Longrightarrow> keepsSkipped pass"
  by (auto simp: passes_def keepsSkipped_skipTagsWhere keepsSkipped_addPrototypes
      keepsSkipped_removeDefinedProtypes keepsSkipped_skipDuplicates keepsSkipped_fixCLinkage)

lemma keepsSkipped_fold:
  "(\<And>pass. pass \<in> set ps \<Longrightarrow> keepsSkipped pass) \<Longrightarrow>
   length (fold (\<lambda>pass s. pass s) ps ts) = length ts
   \<and> (\<forall>i<length ts. SkipMe (ts ! i) \<longrightarrow> SkipMe (fold (\<lambda>pass s. pass s) ps ts ! i))"
proof (induction ps arbitrary: ts)
  case Nil
  then show ?case by simp
next
  case (Cons pass ps)
  have first: "keepsSkipped pass" using Cons.prems by simp
  have rest: "\<And>q. q \<in> set ps \<Longrightarrow> keepsSkipped q" using Cons.prems by simp
  from first have len: "length (pass ts) = length ts"
    and keep: "\<And>i. i < length ts \<Longrightarrow> SkipMe (ts ! i) \<Longrightarrow> SkipMe (pass ts ! i)"
    by (simp_all add: keepsSkipped_def)
  from Cons.IH [OF rest, of "pass ts"] len keep show ?case by simp
qed

lemma stage_split:
  "j \<le> k \<Longrightarrow>
   stage env k ts = fold (\<lambda>pass s. pass s) (drop j (take k (passes env))) (stage env j ts)"
proof -
  assume "j \<le> k"
  then have "take k (passes env) = take j (passes env) @ drop j (take k (passes env))"
    by (metis append_take_drop_id min.absorb1 take_take)
  then have "fold (\<lambda>pass s. pass s) (take k (passes env)) ts =
      fold (\<lambda>pass s. pass s) (drop j (take k (passes env)))
        (fold (\<lambda>pass s. pass s) (take j (passes env)) ts)"
    by (metis fold_append comp_apply)
  then show ?thesis by (simp add: stage_def)
qed

lemma length_stage: "length (stage env k ts) = length ts"
proof -
  have "\<And>pass. pass \<in> set (take k (passes env)) \<Longrightarrow> keepsSkipped pass"
    by (meson in_set_takeD keepsSkipped_passes)
  from keepsSkipped_fold [OF this] show ?thesis by (simp add: stage_def)
qed

lemma stage_0: "stage env 0 ts = ts"
  by (simp add: stage_def)

lemma stage_final: "stage env 7 ts = runPasses env ts"
  by (simp add: stage_def passes_def runPasses_def)

lemma stage_keeps_skipped:
  assumes "j \<le> k" and "i < length ts" and "SkipMe (stage env j ts ! i)"
  shows "SkipMe (stage env k ts ! i)"
proof -
  have "\<And>pass. pass \<in> set (drop j (take k (passes env))) \<Longrightarrow> keepsSkipped pass"
    by (meson in_set_dropD in_set_takeD keepsSkipped_passes)
  from keepsSkipped_fold [OF this, where ts = "stage env j ts"] assms(2,3)
  have "SkipMe (fold (\<lambda>pass s. pass s) (drop j (take k (passes env))) (stage env j ts) ! i)"
    by (simp add: length_stage)
  with stage_split [OF assms(1)] show ?thesis by simp
qed

text \<open>
  Claim C1: the skip flag is monotonic within a run. \<open>stage env k ts\<close> is the
  list of tags that pass \<open>k + 1\<close> reads (\<open>stage env 0 ts\<close> is what the passes
  start from, \<open>stage env 7 ts\<close> what \<^verbatim>\<open>Parse\<close> leaves in the parser). Every stage
  has the records of the first one at the same positions, and a record that is
  skipped at stage \<open>j\<close> is skipped at every later stage \<open>k\<close>: no pass resets
  the flag and no later pass reads it as false.
\<close>

theorem skip_is_monotonic:
  "stage env 0 ts = ts \<and> stage env 7 ts = runPasses env ts
   \<and> length (stage env k ts) = length ts
   \<and> (j \<le> k \<and> i < length ts \<and> SkipMe (stage env j ts ! i) \<longrightarrow> SkipMe (stage env k ts ! i))"
proof (intro conjI impI)
  show "stage env 0 ts = ts" by (rule stage_0)
  show "stage env 7 ts = runPasses env ts" by (rule stage_final)
  show "length (stage env k ts) = length ts" by (rule length_stage)
next
  assume "j \<le> k \<and> i < length ts \<and> SkipMe (stage env j ts ! i)"
  then show "SkipMe (stage env k ts ! i)"
    using stage_keeps_skipped [of j k i ts env] by blast
qed

theorem skip_is_monotonic_witness:
  "SkipMe (stage exampleEnv 4 [tagFooDecl, tagFoo] ! 1)
   \<and> SkipMe (stage exampleEnv 7 [tagFooDecl, tagFoo] ! 1)"
proof -
  have h: "SkipMe (stage exampleEnv 4 [tagFooDecl, tagFoo] ! 1)"
    by code_simp
  have "4 \<le> (7::nat)" and "1 < length [tagFooDecl, tagFoo]"
    by simp_all
  with h skip_is_monotonic [of exampleEnv "[tagFooDecl, tagFoo]" 7 4 1]
  show ?thesis by blast
qed

section \<open>Substring search\<close>

lemma Index_Some_0: "(Index s sub = Some 0) = prefix sub s"
  by (cases s) (auto split: if_splits)

section \<open>The stages before and after prototype generation\<close>

lemma stage_1: "stage env (Suc 0) ts = skipTagsWhere tagIsUnknown ts"
  by (simp add: stage_def passes_def)

lemma stage_2: "stage env 2 ts = skipTagsWhere tagIsUnhandled (stage env (Suc 0) ts)"
  by (simp add: stage_def passes_def)

lemma stage_3: "stage env 3 ts = addPrototypes env (stage env 2 ts)"
  by (simp add: stage_def passes_def)

lemma stage_4: "stage env 4 ts = removeDefinedProtypes (stage env 3 ts)"
  by (simp add: stage_def passes_def)

lemma stage_5: "stage env 5 ts = skipDuplicates (stage env 4 ts)"
  by (simp add: stage_def passes_def)

lemma stage_6: "stage env 6 ts = skipTagsWhere (prototypeAndCodeDontMatch env) (stage env 5 ts)"
  by (simp add: stage_def passes_def)

lemma stage_7: "stage env 7 ts = fixCLinkageTagsDeclarations env (stage env 6 ts)"
  by (simp add: stage_def passes_def)

text \<open>The two filters that run first only write the skip flag.\<close>

lemma nth_stage_2:
  assumes "i < length ts"
  shows "stage env 2 ts ! i =
     (ts ! i)\<lparr>SkipMe := SkipMe (ts ! i) \<or> tagIsUnknown (ts ! i) \<or> tagIsUnhandled (ts ! i)\<rparr>"
proof -
  let ?s1 = "stage env (Suc 0) ts"
  have 1: "?s1 ! i = (ts ! i)\<lparr>SkipMe := SkipMe (ts ! i) \<or> tagIsUnknown (ts ! i)\<rparr>"
    using assms by (simp add: stage_1 nth_skipTagsWhere)
  have "i < length ?s1"
    using assms by (simp add: length_stage)
  then have "stage env 2 ts ! i =
      (if \<not> SkipMe (?s1 ! i) then (?s1 ! i)\<lparr>SkipMe := tagIsUnhandled (?s1 ! i)\<rparr>
       else ?s1 ! i)"
    by (simp add: stage_2 nth_skipTagsWhere)
  with 1 show ?thesis
    by (auto simp: tagIsUnhandled_def isHandled_def)
qed

lemma nth_stage_3:
  assumes "i < length ts"
  shows "stage env 3 ts ! i =
     (if \<not> SkipMe (stage env 2 ts ! i) then addPrototype env (stage env 2 ts ! i)
      else stage env 2 ts ! i)"
  using assms by (simp add: stage_3 nth_addPrototypes length_stage)

lemma addPrototype_plain:
  "\<not> prefix keywordTemplate (Prototype tag) \<Longrightarrow>
   addPrototype env tag =
     tag\<lparr>PrototypeModifiers :=
       TrimSpace (if Contains (Code tag) (keywordStatic @ '' '') then '' '' @ keywordStatic else [])\<rparr>"
  by (simp add: addPrototype_def Index_Some_0 Let_def)

lemma Kind_addPrototype: "Kind (addPrototype env tag) = Kind tag"
  by (simp add: addPrototype_def Let_def)

lemma Kind_stage_3: "i < length ts \<Longrightarrow> Kind (stage env 3 ts ! i) = Kind (ts ! i)"
  by (simp add: nth_stage_3 nth_stage_2 Kind_addPrototype)

lemma Prototype_stage_3_plain:
  "i < length ts \<Longrightarrow> \<not> prefix keywordTemplate (Prototype (ts ! i)) \<Longrightarrow>
   Prototype (stage env 3 ts ! i) = Prototype (ts ! i)"
  by (simp add: nth_stage_3 nth_stage_2 addPrototype_plain)

section \<open>The already-declared filter\<close>

lemma collectDefined_iff:
  "collectDefined d ts x = (d x \<or> (\<exists>t\<in>set ts. Kind t = kindPrototype \<and> Prototype t = x))"
  by (induction ts arbitrary: d) auto

lemma collectDefined_nth:
  "collectDefined d ts x =
     (d x \<or> (\<exists>j<length ts. Kind (ts ! j) = kindPrototype \<and> Prototype (ts ! j) = x))"
  unfolding collectDefined_iff by (metis in_set_conv_nth)

lemma SkipMe_removeDefinedProtypes:
  assumes "i < length ts"
  shows "SkipMe (removeDefinedProtypes ts ! i) =
     (SkipMe (ts ! i)
      \<or> (\<exists>j<length ts. Kind (ts ! j) = kindPrototype \<and> Prototype (ts ! j) = Prototype (ts ! i)))"
  using assms
  by (auto simp: nth_removeDefinedProtypes collectDefined_nth)

lemma declared_is_skipped:
  assumes "i < length ts" and "j < length ts"
    and "Kind (ts ! j) = kindPrototype"
    and "Prototype (ts ! j) = pt" and "Prototype (ts ! i) = pt"
    and "\<not> prefix keywordTemplate pt"
  shows "SkipMe (runPasses env ts ! i)"
proof -
  let ?s3 = "stage env 3 ts"
  have len: "length ?s3 = length ts" by (rule length_stage)
  have "Kind (?s3 ! j) = kindPrototype"
    using assms by (simp add: Kind_stage_3)
  moreover have "Prototype (?s3 ! j) = Prototype (?s3 ! i)"
    using assms by (simp add: Prototype_stage_3_plain)
  ultimately have "SkipMe (removeDefinedProtypes ?s3 ! i)"
    using assms(1,2) len by (auto simp: SkipMe_removeDefinedProtypes)
  then have "SkipMe (stage env 4 ts ! i)" by (simp add: stage_4)
  with stage_keeps_skipped [of 4 7 i ts env] assms(1)
  show ?thesis by (simp add: stage_final)
qed

section \<open>What a run leaves in the parser\<close>

lemma parseRows_append:
  "parseRows acc rows = Inr ts \<Longrightarrow> \<exists>new. ts = acc @ new \<and> length new = length rows"
proof (induction rows arbitrary: acc)
  case Nil
  then show ?case by simp
next
  case (Cons row rows)
  then obtain tag where tag: "parseTag row = Inr tag"
    and rest: "parseRows (acc @ [tag]) rows = Inr ts"
    by (auto split: sum.splits)
  from Cons.IH [OF rest] obtain new where "ts = (acc @ [tag]) @ new" "length new = length rows"
    by blast
  then have "ts = acc @ (tag # new) \<and> length (tag # new) = length (row # rows)" by simp
  then show ?case by blast
qed

lemma Parse_returns:
  assumes "parseRows (tags p) (removeEmpty (Split out NL)) = Inr ts"
  shows "Parse env p out mf =
     Inr (\<lparr>tags = runPasses env ts, mainFile = mf\<rparr>,
          toPrototypes \<lparr>tags = runPasses env ts, mainFile = mf\<rparr>,
          findLineWhereToInsertPrototypes \<lparr>tags = runPasses env ts, mainFile = mf\<rparr>)"
  using assms by (simp add: Parse_def Let_def)

lemma length_runPasses: "length (runPasses env ts) = length ts"
  using length_stage [of env 7 ts] by (simp add: stage_final)

text \<open>
  Claim C3: the already-declared filter collects the prototype texts of the
  records of kind "prototype" and marks as skipped every record whose text is
  one of them. After the pass a record is skipped exactly when it was skipped
  before or its text is the text of some record of kind "prototype" (the flag
  of that record plays no part). End to end: when the records a run starts from
  (those the parser holds and those of the input) contain a record of kind
  "prototype" with a text that does not begin with \<^verbatim>\<open>template\<close>, such as
  \<^verbatim>\<open>void foo();\<close>, then \<^verbatim>\<open>Parse\<close> returns and every record with that text is
  skipped in the parser it leaves.
\<close>

theorem already_declared_is_skipped:
  "(i < length ts \<longrightarrow>
      SkipMe (removeDefinedProtypes ts ! i) =
        (SkipMe (ts ! i)
         \<or> (\<exists>j<length ts. Kind (ts ! j) = kindPrototype
                \<and> Prototype (ts ! j) = Prototype (ts ! i))))
   \<and> (parseRows (tags p) (removeEmpty (Split out NL)) = Inr ts
        \<and> i < length ts \<and> j < length ts
        \<and> Kind (ts ! j) = kindPrototype \<and> Prototype (ts ! j) = pt
        \<and> Prototype (ts ! i) = pt \<and> \<not> prefix keywordTemplate pt \<longrightarrow>
      (\<exists>p' protos line.
          Parse env p out mf = Inr (p', protos, line)
          \<and> length (tags p') = length ts \<and> SkipMe (tags p' ! i)))"
proof (intro conjI impI)
  assume "i < length ts"
  then show "SkipMe (removeDefinedProtypes ts ! i) =
        (SkipMe (ts ! i)
         \<or> (\<exists>j<length ts. Kind (ts ! j) = kindPrototype
                \<and> Prototype (ts ! j) = Prototype (ts ! i)))"
    by (rule SkipMe_removeDefinedProtypes)
next
  assume a: "parseRows (tags p) (removeEmpty (Split out NL)) = Inr ts
        \<and> i < length ts \<and> j < length ts
        \<and> Kind (ts ! j) = kindPrototype \<and> Prototype (ts ! j) = pt
        \<and> Prototype (ts ! i) = pt \<and> \<not> prefix keywordTemplate pt"
  then have "SkipMe (runPasses env ts ! i)"
    using declared_is_skipped [of i ts j pt env] by blast
  with a Parse_returns [of p out ts env mf] length_runPasses [of env ts]
  show "\<exists>p' protos line.
          Parse env p out mf = Inr (p', protos, line)
          \<and> length (tags p') = length ts \<and> SkipMe (tags p' ! i)"
    by simp
qed

lemma rows_decl_foo:
  "removeEmpty (Split (rowFooDecl @ [NL] @ rowFoo @ [NL]) NL) = [rowFooDecl, rowFoo]"
  by code_simp

theorem already_declared_is_skipped_witness:
  "parseRows (tags newParser) (removeEmpty (Split (rowFooDecl @ [NL] @ rowFoo @ [NL]) NL))
     = Inr [tagFooDecl, tagFoo]
   \<and> Kind tagFooDecl = ''prototype'' \<and> Prototype tagFooDecl = ''void foo();''
   \<and> Kind tagFoo = ''function'' \<and> Prototype tagFoo = ''void foo();''
   \<and> SkipMe (removeDefinedProtypes [tagFooDecl, tagFoo] ! 1)
   \<and> (\<exists>p' protos line.
         Parse exampleEnv newParser (rowFooDecl @ [NL] @ rowFoo @ [NL]) ''main.ino''
           = Inr (p', protos, line)
         \<and> length (tags p') = 2 \<and> SkipMe (tags p' ! 1))"
proof -
  have rows: "parseRows (tags newParser)
      (removeEmpty (Split (rowFooDecl @ [NL] @ rowFoo @ [NL]) NL)) = Inr [tagFooDecl, tagFoo]"
    unfolding rows_decl_foo
    by (simp add: newParser_def parseTag_rowFooDecl parseTag_rowFoo)
  have fields: "Kind tagFooDecl = ''prototype''" "Prototype tagFooDecl = ''void foo();''"
    "Kind tagFoo = ''function''" "Prototype tagFoo = ''void foo();''"
    by (simp_all add: tagFooDecl_def tagFoo_def)
  have plain: "\<not> prefix keywordTemplate ''void foo();''"
    by (simp add: keywordTemplate_def)
  from already_declared_is_skipped
    [of 1 "[tagFooDecl, tagFoo]" newParser "rowFooDecl @ [NL] @ rowFoo @ [NL]" 0
       "''void foo();''" exampleEnv "''main.ino''"]
    rows fields plain
  have "\<exists>p' protos line.
         Parse exampleEnv newParser (rowFooDecl @ [NL] @ rowFoo @ [NL]) ''main.ino''
           = Inr (p', protos, line)
         \<and> length (tags p') = 2 \<and> SkipMe (tags p' ! 1)"
    by (simp add: kindPrototype_def numeral_2_eq_2)
  moreover from already_declared_is_skipped
    [of 1 "[tagFooDecl, tagFoo]" newParser "[]" 0 "''void foo();''" exampleEnv "[]"] fields
  have "SkipMe (removeDefinedProtypes [tagFooDecl, tagFoo] ! 1)"
    by (auto simp: kindPrototype_def)
  ultimately show ?thesis using rows fields by simp
qed

section \<open>The duplicate filter\<close>

lemma first_unskipped_survives:
  assumes i: "i < length ts" and unskipped: "\<not> SkipMe (ts ! i)"
    and first: "\<forall>j<i. \<not> SkipMe (ts ! j) \<longrightarrow> Prototype (ts ! j) \<noteq> Prototype (ts ! i)"
    and k: "k < length ts" and same: "Prototype (ts ! k) = Prototype (ts ! i)"
  shows "(\<not> SkipMe (skipDuplicates ts ! k)) = (k = i)"
proof (cases "k = i")
  case True
  with i unskipped first show ?thesis
    by (simp add: nth_skipDuplicates)
next
  case False
  have "SkipMe (skipDuplicates ts ! k)"
  proof (cases "k < i")
    case True
    with first same have "SkipMe (ts ! k)" by auto
    with k show ?thesis by (simp add: nth_skipDuplicates)
  next
    case False
    with \<open>k \<noteq> i\<close> have "i < k" by simp
    with unskipped same have
      "\<not> (\<forall>j<k. \<not> SkipMe (ts ! j) \<longrightarrow> Prototype (ts ! j) \<noteq> Prototype (ts ! k))"
      by auto
    with k show ?thesis by (simp add: nth_skipDuplicates)
  qed
  with False show ?thesis by simp
qed

text \<open>
  Claim C2, as amended: walking the records in their order, the duplicate
  filter keeps the first record of each prototype text that is not yet
  skipped and marks every other record of that text as skipped; it writes
  nothing but the skip flag. So among the records that share a text at most
  one survives: when one of them was unskipped before the pass, exactly one
  survives and it is the earliest that was unskipped, which need not be the
  earliest in the original order; when all of them were skipped already, none
  survives.
\<close>

theorem skipDuplicates_keeps_first_unskipped:
  "(i < length ts \<longrightarrow>
      skipDuplicates ts ! i =
        (ts ! i)\<lparr>SkipMe :=
           \<not> (\<not> SkipMe (ts ! i)
              \<and> (\<forall>j<i. \<not> SkipMe (ts ! j) \<longrightarrow> Prototype (ts ! j) \<noteq> Prototype (ts ! i)))\<rparr>)
   \<and> (i < length ts \<and> \<not> SkipMe (ts ! i)
        \<and> (\<forall>j<i. \<not> SkipMe (ts ! j) \<longrightarrow> Prototype (ts ! j) \<noteq> Prototype (ts ! i)) \<longrightarrow>
      (\<forall>k<length ts. Prototype (ts ! k) = Prototype (ts ! i) \<longrightarrow>
          (\<not> SkipMe (skipDuplicates ts ! k)) = (k = i)))
   \<and> ((\<forall>k<length ts. Prototype (ts ! k) = pt \<longrightarrow> SkipMe (ts ! k)) \<longrightarrow>
      (\<forall>k<length ts. Prototype (ts ! k) = pt \<longrightarrow> SkipMe (skipDuplicates ts ! k)))"
proof (intro conjI)
  show "i < length ts \<longrightarrow>
      skipDuplicates ts ! i =
        (ts ! i)\<lparr>SkipMe :=
           \<not> (\<not> SkipMe (ts ! i)
              \<and> (\<forall>j<i. \<not> SkipMe (ts ! j) \<longrightarrow> Prototype (ts ! j) \<noteq> Prototype (ts ! i)))\<rparr>"
    by (simp add: nth_skipDuplicates)
next
  show "i < length ts \<and> \<not> SkipMe (ts ! i)
        \<and> (\<forall>j<i. \<not> SkipMe (ts ! j) \<longrightarrow> Prototype (ts ! j) \<noteq> Prototype (ts ! i)) \<longrightarrow>
      (\<forall>k<length ts. Prototype (ts ! k) = Prototype (ts ! i) \<longrightarrow>
          (\<not> SkipMe (skipDuplicates ts ! k)) = (k = i))"
    using first_unskipped_survives [of i ts] by blast
next
  show "(\<forall>k<length ts. Prototype (ts ! k) = pt \<longrightarrow> SkipMe (ts ! k)) \<longrightarrow>
      (\<forall>k<length ts. Prototype (ts ! k) = pt \<longrightarrow> SkipMe (skipDuplicates ts ! k))"
    by (simp add: nth_skipDuplicates)
qed

theorem skipDuplicates_keeps_first_unskipped_witness:
  "map Prototype (stage exampleEnv 4 [tagFooMethod, tagFoo, tagFooStatic])
     = [''void foo();'', ''void foo();'', ''void foo();'']
   \<and> map SkipMe (stage exampleEnv 4 [tagFooMethod, tagFoo, tagFooStatic]) = [True, False, False]
   \<and> SkipMe (skipDuplicates (stage exampleEnv 4 [tagFooMethod, tagFoo, tagFooStatic]) ! 0)
   \<and> \<not> SkipMe (skipDuplicates (stage exampleEnv 4 [tagFooMethod, tagFoo, tagFooStatic]) ! 1)
   \<and> SkipMe (skipDuplicates (stage exampleEnv 4 [tagFooMethod, tagFoo, tagFooStatic]) ! 2)
   \<and> map SkipMe (stage exampleEnv 4 [tagFooDecl, tagFoo]) = [True, True]
   \<and> SkipMe (skipDuplicates (stage exampleEnv 4 [tagFooDecl, tagFoo]) ! 1)"
proof -
  let ?ts = "stage exampleEnv 4 [tagFooMethod, tagFoo, tagFooStatic]"
  have texts: "map Prototype ?ts = [''void foo();'', ''void foo();'', ''void foo();'']"
    by code_simp
  have flags: "map SkipMe ?ts = [True, False, False]"
    by code_simp
  have len: "length ?ts = 3"
    by (simp add: length_stage)
  have t: "Prototype (?ts ! 0) = ''void foo();''" "Prototype (?ts ! 1) = ''void foo();''"
    "Prototype (?ts ! 2) = ''void foo();''"
    using arg_cong [OF texts, of "\<lambda>xs. xs ! 0"] arg_cong [OF texts, of "\<lambda>xs. xs ! 1"]
      arg_cong [OF texts, of "\<lambda>xs. xs ! 2"] len
    by simp_all
  have f: "SkipMe (?ts ! 0)" "\<not> SkipMe (?ts ! 1)" "\<not> SkipMe (?ts ! 2)"
    using arg_cong [OF flags, of "\<lambda>xs. xs ! 0"] arg_cong [OF flags, of "\<lambda>xs. xs ! 1"]
      arg_cong [OF flags, of "\<lambda>xs. xs ! 2"] len
    by simp_all
  have first: "\<forall>j<1. \<not> SkipMe (?ts ! j) \<longrightarrow> Prototype (?ts ! j) \<noteq> Prototype (?ts ! 1)"
    using f(1) by simp
  from skipDuplicates_keeps_first_unskipped [of 1 ?ts "''void foo();''"] len f(2) first
  have all: "\<forall>k<length ?ts. Prototype (?ts ! k) = Prototype (?ts ! 1) \<longrightarrow>
      (\<not> SkipMe (skipDuplicates ?ts ! k)) = (k = 1)"
    by simp
  have "SkipMe (skipDuplicates ?ts ! 0)"
    using all [rule_format, of 0] len t by simp
  moreover have "\<not> SkipMe (skipDuplicates ?ts ! 1)"
    using all [rule_format, of 1] len t by simp
  moreover have "SkipMe (skipDuplicates ?ts ! 2)"
    using all [rule_format, of 2] len t by simp
  moreover have skipped: "map SkipMe (stage exampleEnv 4 [tagFooDecl, tagFoo]) = [True, True]"
    by code_simp
  moreover have "SkipMe (skipDuplicates (stage exampleEnv 4 [tagFooDecl, tagFoo]) ! 1)"
  proof -
    let ?us = "stage exampleEnv 4 [tagFooDecl, tagFoo]"
    have ulen: "length ?us = 2" by (simp add: length_stage)
    have "SkipMe (?us ! k)" if "k < 2" for k
      using that arg_cong [OF skipped, of "\<lambda>xs. xs ! k"] ulen
      by (cases k) (auto simp: less_Suc_eq numeral_2_eq_2)
    then have "\<forall>k<length ?us. Prototype (?us ! k) = ''void foo();'' \<longrightarrow> SkipMe (?us ! k)"
      using ulen by simp
    with skipDuplicates_keeps_first_unskipped [of 0 ?us "''void foo();''"]
    have all: "\<forall>k<length ?us. Prototype (?us ! k) = ''void foo();'' \<longrightarrow>
        SkipMe (skipDuplicates ?us ! k)"
      by blast
    have "Prototype (?us ! 1) = ''void foo();''" by code_simp
    with all [rule_format, of 1] ulen show ?thesis by simp
  qed
  ultimately show ?thesis using texts flags by simp
qed

text \<open>The claim as it is written fails on the records the duplicate filter reads
  in a run. A method and a function with the same text: the method was skipped
  by the scope filter, so the survivor is the second record, not the earliest.
  A declaration and a function with the same text: both were skipped by the
  already-declared filter, so no record of that text survives.\<close>

theorem skipDuplicates_earliest_counterexample:
  "map Prototype (stage exampleEnv 4 [tagFooMethod, tagFoo]) = [''void foo();'', ''void foo();'']
   \<and> map SkipMe (skipDuplicates (stage exampleEnv 4 [tagFooMethod, tagFoo])) = [True, False]
   \<and> map Prototype (stage exampleEnv 4 [tagFooDecl, tagFoo]) = [''void foo();'', ''void foo();'']
   \<and> map SkipMe (skipDuplicates (stage exampleEnv 4 [tagFooDecl, tagFoo])) = [True, True]"
  by code_simp

section \<open>Searching for one byte\<close>

lemma Index_char_None: "(Index s [c] = None) = (c \<notin> set s)"
  by (induction s) auto

lemma Index_char_first: "c \<notin> set pre \<Longrightarrow> Index (pre @ c # post) [c] = Some (length pre)"
  by (induction pre) auto

lemma LastIndex_char_None: "(LastIndex s [c] = None) = (c \<notin> set s)"
  by (induction s) (auto split: option.splits)

lemma LastIndex_char_last:
  "c \<notin> set post \<Longrightarrow> LastIndex (pre @ c # post) [c] = Some (length pre)"
proof (induction pre)
  case Nil
  then have "LastIndex post [c] = None" by (simp add: LastIndex_char_None)
  then show ?case by simp
next
  case (Cons a pre)
  then show ?case by simp
qed

section \<open>Prototype generation for templates\<close>

lemma addPrototype_template_brace:
  assumes "prefix keywordTemplate (Prototype tag)" and "prefix keywordTemplate (Code tag)"
    and "Code tag = pre @ ''{'' @ post" and "CHR ''{'' \<notin> set pre"
  shows "addPrototype env tag = tag\<lparr>Prototype := pre @ '';''\<rparr>"
proof -
  have "Index (Code tag) ''{'' = Some (length pre)"
    using assms(3,4) by (simp add: Index_char_first)
  then show ?thesis
    using assms(1,2,3) by (simp add: addPrototype_def Index_Some_0 Let_def)
qed

lemma addPrototype_template_paren:
  assumes "prefix keywordTemplate (Prototype tag)" and "prefix keywordTemplate (Code tag)"
    and "CHR ''{'' \<notin> set (Code tag)"
    and "Code tag = pre @ '')'' @ post" and "CHR '')'' \<notin> set post"
  shows "addPrototype env tag = tag\<lparr>Prototype := pre @ '');''\<rparr>"
proof -
  have "Index (Code tag) ''{'' = None"
    using assms(3) by (simp add: Index_char_None)
  moreover have "LastIndex (Code tag) '')'' = Some (length pre)"
    using assms(4,5) by (simp add: LastIndex_char_last)
  ultimately show ?thesis
    using assms(1,2,4) by (simp add: addPrototype_def Index_Some_0 Let_def)
qed

text \<open>After prototype generation no pass writes the prototype text.\<close>

lemma Prototype_after_stage_3:
  assumes "i < length ts"
  shows "Prototype (runPasses env ts ! i) = Prototype (stage env 3 ts ! i)"
proof -
  have l3: "i < length (stage env 3 ts)" and l4: "i < length (stage env 4 ts)"
    and l5: "i < length (stage env 5 ts)" and l6: "i < length (stage env 6 ts)"
    using assms by (simp_all add: length_stage)
  have "Prototype (stage env 4 ts ! i) = Prototype (stage env 3 ts ! i)"
    using l3 by (simp add: stage_4 nth_removeDefinedProtypes)
  moreover have "Prototype (stage env 5 ts ! i) = Prototype (stage env 4 ts ! i)"
    using l4 by (simp add: stage_5 nth_skipDuplicates)
  moreover have "Prototype (stage env 6 ts ! i) = Prototype (stage env 5 ts ! i)"
    using l5 by (simp add: stage_6 nth_skipTagsWhere)
  moreover have "Prototype (stage env 7 ts ! i) = Prototype (stage env 6 ts ! i)"
    using l6 by (simp add: stage_7 nth_fixCLinkage)
  ultimately show ?thesis by (simp add: stage_final)
qed

lemma stage_3_generated:
  assumes "i < length ts" and "\<not> SkipMe (stage env 2 ts ! i)"
  shows "stage env 3 ts ! i = addPrototype env (ts ! i)"
proof -
  from assms have "stage env 2 ts ! i = ts ! i"
    by (simp add: nth_stage_2)
  with assms show ?thesis by (simp add: nth_stage_3)
qed

text \<open>
  Claim C6: for a record that is not skipped when prototype generation runs,
  whose derived prototype text and whose code snippet both start with
  \<^verbatim>\<open>template\<close>, the final prototype text (the one in the parser after the last
  pass) is the snippet up to its first \<^verbatim>\<open>{\<close>, excluded, followed by \<^verbatim>\<open>;\<close>; when
  the snippet has no \<^verbatim>\<open>{\<close>, it is the snippet up to its last \<^verbatim>\<open>)\<close>, included,
  followed by \<^verbatim>\<open>;\<close>.
\<close>

theorem template_prototype_from_snippet:
  "i < length ts \<and> \<not> SkipMe (stage env 2 ts ! i)
   \<and> prefix keywordTemplate (Prototype (ts ! i)) \<and> prefix keywordTemplate (Code (ts ! i)) \<longrightarrow>
   (Code (ts ! i) = pre @ ''{'' @ post \<and> CHR ''{'' \<notin> set pre \<longrightarrow>
      Prototype (runPasses env ts ! i) = pre @ '';'')
   \<and> (CHR ''{'' \<notin> set (Code (ts ! i)) \<and> Code (ts ! i) = pre @ '')'' @ post
        \<and> CHR '')'' \<notin> set post \<longrightarrow>
      Prototype (runPasses env ts ! i) = pre @ '');'')"
proof (intro impI conjI)
  assume a: "i < length ts \<and> \<not> SkipMe (stage env 2 ts ! i)
   \<and> prefix keywordTemplate (Prototype (ts ! i)) \<and> prefix keywordTemplate (Code (ts ! i))"
  then have final: "Prototype (runPasses env ts ! i) = Prototype (addPrototype env (ts ! i))"
    by (simp add: Prototype_after_stage_3 stage_3_generated)
  from a have p1: "prefix keywordTemplate (Prototype (ts ! i))"
    and p2: "prefix keywordTemplate (Code (ts ! i))"
    by blast+
  {
    assume b: "Code (ts ! i) = pre @ ''{'' @ post \<and> CHR ''{'' \<notin> set pre"
    then have b1: "Code (ts ! i) = pre @ ''{'' @ post" and b2: "CHR ''{'' \<notin> set pre"
      by blast+
    from addPrototype_template_brace [OF p1 p2 b1 b2, of env] final
    show "Prototype (runPasses env ts ! i) = pre @ '';''" by simp
  next
    assume c: "CHR ''{'' \<notin> set (Code (ts ! i)) \<and> Code (ts ! i) = pre @ '')'' @ post
        \<and> CHR '')'' \<notin> set post"
    then have c1: "CHR ''{'' \<notin> set (Code (ts ! i))"
      and c2: "Code (ts ! i) = pre @ '')'' @ post" and c3: "CHR '')'' \<notin> set post"
      by blast+
    from addPrototype_template_paren [OF p1 p2 c1 c2 c3, of env] final
    show "Prototype (runPasses env ts ! i) = pre @ '');''" by simp
  }
qed

text \<open>The record of the spec's example: the function template \<^verbatim>\<open>max\<close>.\<close>

theorem template_prototype_from_snippet_witness:
  "\<not> SkipMe (stage exampleEnv 2 [tagMax] ! 0)
   \<and> prefix keywordTemplate (Prototype tagMax) \<and> prefix keywordTemplate (Code tagMax)
   \<and> Code tagMax = ''template <typename T> T max(T a, T b) {''
   \<and> Prototype (runPasses exampleEnv [tagMax] ! 0) = ''template <typename T> T max(T a, T b) ;''
   \<and> Code tagMaxNoBrace = ''template <typename T> T max(T a, T b)''
   \<and> Prototype (runPasses exampleEnv [tagMaxNoBrace] ! 0)
       = ''template <typename T> T max(T a, T b);''"
proof -
  have h: "\<not> SkipMe (stage exampleEnv 2 [tagMax] ! 0)"
    by code_simp
  have p: "prefix keywordTemplate (Prototype tagMax)" "prefix keywordTemplate (Code tagMax)"
    by (simp_all add: keywordTemplate_def tagMax_def)
  have c: "Code tagMax = ''template <typename T> T max(T a, T b) {''"
    by (simp add: tagMax_def)
  have split: "Code ([tagMax] ! 0) = ''template <typename T> T max(T a, T b) '' @ ''{'' @ []
      \<and> CHR ''{'' \<notin> set ''template <typename T> T max(T a, T b) ''"
    by (simp add: tagMax_def)
  from template_prototype_from_snippet
    [of 0 "[tagMax]" exampleEnv "''template <typename T> T max(T a, T b) ''" "[]"] h p split
  have "Prototype (runPasses exampleEnv [tagMax] ! 0)
      = ''template <typename T> T max(T a, T b) '' @ '';''"
    by simp
  moreover have h': "\<not> SkipMe (stage exampleEnv 2 [tagMaxNoBrace] ! 0)"
    by code_simp
  moreover have p': "prefix keywordTemplate (Prototype ([tagMaxNoBrace] ! 0))"
    "prefix keywordTemplate (Code ([tagMaxNoBrace] ! 0))"
    by (simp_all add: keywordTemplate_def tagMaxNoBrace_def tagMax_def)
  moreover have c': "Code tagMaxNoBrace = ''template <typename T> T max(T a, T b)''"
    by (simp add: tagMaxNoBrace_def)
  moreover have split': "CHR ''{'' \<notin> set (Code ([tagMaxNoBrace] ! 0))
      \<and> Code ([tagMaxNoBrace] ! 0) = ''template <typename T> T max(T a, T b'' @ '')'' @ []
      \<and> CHR '')'' \<notin> set []"
    by (simp add: tagMaxNoBrace_def)
  moreover from template_prototype_from_snippet
    [of 0 "[tagMaxNoBrace]" exampleEnv "''template <typename T> T max(T a, T b''" "[]"]
    h' p' split'
  have "Prototype (runPasses exampleEnv [tagMaxNoBrace] ! 0)
      = ''template <typename T> T max(T a, T b'' @ '');''"
    by simp
  ultimately show ?thesis using h p c by simp
qed

section \<open>The storage-class modifier\<close>












section \<open>What \<open>Atoi\<close> computes\<close>

lemma foldl_digitStep_ge: "n \<le> foldl digitStep n ds"
proof (induction ds arbitrary: n)
  case Nil
  then show ?case by simp
next
  case (Cons c ds)
  have "n \<le> digitStep n c" by (simp add: digitStep_def)
  also have "\<dots> \<le> foldl digitStep (digitStep n c) ds" by (rule Cons.IH)
  finally show ?case by simp
qed

text \<open>The loop of \<^verbatim>\<open>ParseUint\<close>: the digits at the front are accumulated; a range
  error is raised when they overflow, else a syntax error when a byte that is
  no digit follows them.\<close>

lemma ParseUint_loop_Cons:
  "ParseUint_loop (c # cs) n =
     (if \<not> isDigit c then (0, Some ErrSyntax)
      else if 2 ^ 64 - 1 < digitStep n c then (2 ^ 64 - 1, Some ErrRange)
      else ParseUint_loop cs (digitStep n c))"
  by (simp add: digitStep_def)

lemma ParseUint_loop_eq:
  "n \<le> 2 ^ 64 - 1 \<Longrightarrow>
   ParseUint_loop s n =
     (if 2 ^ 64 - 1 < foldl digitStep n (takeWhile isDigit s) then (2 ^ 64 - 1, Some ErrRange)
      else if \<not> list_all isDigit s then (0, Some ErrSyntax)
      else (foldl digitStep n s, None))"
proof (induction s arbitrary: n)
  case Nil
  then show ?case by simp
next
  case (Cons c cs)
  show ?case
  proof (cases "isDigit c")
    case False
    with Cons.prems show ?thesis
      by (simp add: ParseUint_loop_Cons del: ParseUint_loop.simps)
  next
    case True
    show ?thesis
    proof (cases "2 ^ 64 - 1 < digitStep n c")
      case over: True
      have "digitStep n c \<le> foldl digitStep (digitStep n c) (takeWhile isDigit cs)"
        by (rule foldl_digitStep_ge)
      with over have "2 ^ 64 - 1 < foldl digitStep (digitStep n c) (takeWhile isDigit cs)"
        by simp
      with True over show ?thesis
        by (simp add: ParseUint_loop_Cons del: ParseUint_loop.simps)
    next
      case False
      then have "digitStep n c \<le> 2 ^ 64 - 1" by simp
      from Cons.IH [OF this] True False show ?thesis
        by (simp add: ParseUint_loop_Cons del: ParseUint_loop.simps)
    qed
  qed
qed

lemma takeWhile_all_digits: "list_all isDigit s \<Longrightarrow> takeWhile isDigit s = s"
  by (simp add: list_all_iff)

lemma ParseUint_eq:
  "ParseUint s =
     (if s = [] then (0, Some ErrSyntax)
      else if 2 ^ 64 - 1 < decimalValue (takeWhile isDigit s) then (2 ^ 64 - 1, Some ErrRange)
      else if \<not> list_all isDigit s then (0, Some ErrSyntax)
      else (decimalValue s, None))"
  by (simp add: ParseUint_def ParseUint_loop_eq decimalValue_def)

lemma ParseInt_eq:
  "ParseInt s =
     (if s = [] then (0, Some ErrSyntax)
      else case ParseUint (unsignedPart s) of
        (un, err) \<Rightarrow>
          if err = Some ErrSyntax then (0, err)
          else if hd s \<noteq> CHR ''-'' \<and> 2 ^ 63 \<le> un then (2 ^ 63 - 1, Some ErrRange)
          else if hd s = CHR ''-'' \<and> 2 ^ 63 < un then (- (2 ^ 63), Some ErrRange)
          else (if hd s = CHR ''-'' then - int un else int un, None))"
  by (simp add: ParseInt_def unsignedPart_def Let_def)

lemma Atoi_range: "- (2 ^ 63) \<le> fst (Atoi s) \<and> fst (Atoi s) \<le> 2 ^ 63 - 1"
  by (auto simp: Atoi_def ParseInt_eq split: prod.splits)

lemma Atoi_malformed:
  assumes "unsignedPart s = [] \<or>
     (\<not> list_all isDigit (unsignedPart s)
      \<and> decimalValue (takeWhile isDigit (unsignedPart s)) \<le> 2 ^ 64 - 1)"
  shows "Atoi s = (0, Some ErrSyntax)"
proof (cases "s = []")
  case True
  then show ?thesis by (simp add: Atoi_def ParseInt_eq)
next
  case False
  from assms have "ParseUint (unsignedPart s) = (0, Some ErrSyntax)"
    by (auto simp: ParseUint_eq)
  with False show ?thesis by (simp add: Atoi_def ParseInt_eq)
qed

lemma Atoi_wellformed:
  assumes "unsignedPart s \<noteq> []" and "list_all isDigit (unsignedPart s)"
  shows "fst (Atoi s) =
     (if hd s = CHR ''-'' then max (- (2 ^ 63)) (- int (decimalValue (unsignedPart s)))
      else min (2 ^ 63 - 1) (int (decimalValue (unsignedPart s))))"
proof -
  from assms(1) have s: "s \<noteq> []" by (auto simp: unsignedPart_def)
  note all = takeWhile_all_digits [OF assms(2)]
  show ?thesis
  proof (cases "2 ^ 64 - 1 < decimalValue (unsignedPart s)")
    case True
    with assms have "ParseUint (unsignedPart s) = (2 ^ 64 - 1, Some ErrRange)"
      by (simp add: ParseUint_eq all)
    with s True show ?thesis
      by (simp add: Atoi_def ParseInt_eq)
  next
    case False
    with assms have "ParseUint (unsignedPart s) = (decimalValue (unsignedPart s), None)"
      by (simp add: ParseUint_eq all)
    with s show ?thesis
      by (auto simp: Atoi_def ParseInt_eq)
  qed
qed

section \<open>The line number of a tag\<close>

lemma parseField_line:
  "parseField (''line:'' @ v) (tag, rt) = (tag\<lparr>Line := fst (Atoi (TrimSpace v))\<rparr>, rt)"
  by (simp add: parseField_def)

lemma parseField_Line_range:
  assumes "- (2 ^ 63) \<le> Line (fst st) \<and> Line (fst st) \<le> 2 ^ 63 - 1"
  shows "- (2 ^ 63) \<le> Line (fst (parseField part st))
     \<and> Line (fst (parseField part st)) \<le> 2 ^ 63 - 1"
  using assms Atoi_range
  by (cases st) (simp add: parseField_def Let_def split: option.splits)

lemma fold_parseField_Line_range:
  "- (2 ^ 63) \<le> Line (fst st) \<and> Line (fst st) \<le> 2 ^ 63 - 1 \<Longrightarrow>
   - (2 ^ 63) \<le> Line (fst (fold parseField parts st))
     \<and> Line (fst (fold parseField parts st)) \<le> 2 ^ 63 - 1"
proof (induction parts arbitrary: st)
  case Nil
  then show ?case by simp
next
  case (Cons part parts)
  from Cons.IH [OF parseField_Line_range [OF Cons.prems]] show ?case by simp
qed

lemma parseTag_Line_range:
  assumes "parseTag row = Inr t"
  shows "- (2 ^ 63) \<le> Line t \<and> Line t \<le> 2 ^ 63 - 1"
proof -
  from assms obtain name fname rest where parts: "Split row TAB = name # fname # rest"
    by (auto simp: parseTag_def split: list.splits)
  let ?tag0 = "emptyTag\<lparr>FunctionName := name,
      Filename := ReplaceAll fname [BACKSLASH, BACKSLASH] [BACKSLASH]\<rparr>"
  let ?st = "fold parseField rest (?tag0, [])"
  have "- (2 ^ 63) \<le> Line (fst (?tag0, [])) \<and> Line (fst (?tag0, [])) \<le> 2 ^ 63 - 1"
    by (simp add: emptyTag_def)
  then have range: "- (2 ^ 63) \<le> Line (fst ?st) \<and> Line (fst ?st) \<le> 2 ^ 63 - 1"
    by (rule fold_parseField_Line_range)
  from assms parts have "Line t = Line (fst ?st)"
    by (auto simp: parseTag_def Let_def split: option.splits sum.splits)
  with range show ?thesis by simp
qed

lemma Index_bound: "Index s sub = Some j \<Longrightarrow> j \<le> length s"
  by (induction s arbitrary: j) (auto split: if_splits)

lemma Index_char_nth: "Index s [c] = Some k \<Longrightarrow> k < length s \<and> s ! k = c"
  by (induction s arbitrary: k) (auto split: if_splits)

lemma line_field_prefix:
  assumes "Index part '':'' = Some colon" and "take colon part = ''line''"
  shows "prefix ''line:'' part"
proof -
  from assms(1) have c: "colon < length part" and at: "part ! colon = CHR '':''"
    using Index_char_nth [of part "CHR '':''" colon] by simp_all
  from assms(2) have "length (take colon part) = 4" by simp
  with c have "colon = 4" by simp
  with c at assms(2) have "part = ''line'' @ CHR '':'' # drop 5 part"
    using id_take_nth_drop [of 4 part] by simp
  then show ?thesis
    by (metis append_Cons append_Nil prefixI append.assoc)
qed

lemma parseField_Line:
  "Line (fst (parseField part st)) =
     (if prefix ''line:'' part then fst (Atoi (TrimSpace (drop 5 part))) else Line (fst st))"
proof (cases "prefix ''line:'' part")
  case True
  then obtain v where "part = ''line:'' @ v" by (auto simp: prefix_def)
  then show ?thesis
    using parseField_line [of v "fst st" "snd st"] by simp
next
  case False
  then have "\<And>colon. Index part '':'' = Some colon \<Longrightarrow> take colon part \<noteq> ''line''"
    using line_field_prefix by blast
  with False show ?thesis
    by (cases st) (auto simp: parseField_def Let_def split: option.splits)
qed

lemma fold_parseField_Line:
  "Line (fst (fold parseField parts st)) = lineOfFields parts (Line (fst st))"
proof (induction parts arbitrary: st)
  case Nil
  then show ?case by (simp add: lineOfFields_def)
next
  case (Cons part parts)
  have "Line (fst (fold parseField (part # parts) st))
      = lineOfFields parts (Line (fst (parseField part st)))"
    using Cons.IH [of "parseField part st"] by simp
  then show ?case
    by (simp add: parseField_Line lineOfFields_def)
qed

lemma parseTag_Inr_iff: "(\<exists>t. parseTag row = Inr t) = rowParses row"
proof (cases "Split row TAB")
  case Nil
  then show ?thesis by (simp add: parseTag_def rowParses_def)
next
  case (Cons name more)
  show ?thesis
  proof (cases more)
    case Nil
    with Cons show ?thesis by (simp add: parseTag_def rowParses_def)
  next
    case (Cons fname rest)
    have "\<And>j. Index row ''$/;'' = Some j \<Longrightarrow> j \<le> length row"
      by (rule Index_bound)
    with Cons \<open>Split row TAB = name # more\<close> show ?thesis
      by (auto simp: parseTag_def rowParses_def slice_def Let_def split: option.splits)
  qed
qed

lemma parseTag_Line:
  assumes "Split row TAB = name # fname # rest" and "parseTag row = Inr t"
  shows "Line t = lineOfFields rest 0"
proof -
  let ?tag0 = "emptyTag\<lparr>FunctionName := name,
      Filename := ReplaceAll fname [BACKSLASH, BACKSLASH] [BACKSLASH]\<rparr>"
  let ?init = "(?tag0, [] :: string)"
  let ?st = "fold parseField rest ?init"
  from assms have "Line t = Line (fst ?st)"
    by (auto simp: parseTag_def Let_def split: option.splits sum.splits)
  also have "\<dots> = lineOfFields rest (Line (fst ?init))"
    by (rule fold_parseField_Line)
  also have "\<dots> = lineOfFields rest 0"
    by (simp add: emptyTag_def)
  finally show ?thesis .
qed

text \<open>
  Claim C8, as amended: whether a row becomes a record depends only on the
  number of its fields and on the place of its two markers, never on the number
  that \<^verbatim>\<open>strconv.Atoi\<close> finds. For every row that becomes a record, the line
  number stored is what \<^verbatim>\<open>Atoi\<close> returns, whatever its error, for the value of
  the last \<^verbatim>\<open>line\<close> key with surrounding white space removed, and 0 when the
  row has no such key. The number is signed: an optional sign followed by
  decimal digits is stored as that number, negative after \<^verbatim>\<open>-\<close>, cut to the
  signed 64-bit range. A value that is not of that form (no digit after the
  sign, or a byte that is no digit after digits that fit in 64 bits) yields 0.
  So the line number of every parsed record lies in the signed 64-bit range; it
  need not be non-negative.
\<close>

theorem line_is_signed_decimal:
  "parseField (''line:'' @ v) (tag, rt) = (tag\<lparr>Line := fst (Atoi (TrimSpace v))\<rparr>, rt)
   \<and> (unsignedPart s \<noteq> [] \<and> list_all isDigit (unsignedPart s) \<longrightarrow>
        fst (Atoi s) =
          (if hd s = CHR ''-'' then max (- (2 ^ 63)) (- int (decimalValue (unsignedPart s)))
           else min (2 ^ 63 - 1) (int (decimalValue (unsignedPart s)))))
   \<and> (unsignedPart s = [] \<or>
        (\<not> list_all isDigit (unsignedPart s)
         \<and> decimalValue (takeWhile isDigit (unsignedPart s)) \<le> 2 ^ 64 - 1) \<longrightarrow>
        fst (Atoi s) = 0)
   \<and> (parseTag row = Inr t \<longrightarrow> - (2 ^ 63) \<le> Line t \<and> Line t \<le> 2 ^ 63 - 1)
   \<and> (\<exists>t'. parseTag row = Inr t') = rowParses row
   \<and> (Split row TAB = name # fname # rest \<and> rowParses row \<longrightarrow>
        (\<exists>t'. parseTag row = Inr t' \<and> Line t' = lineOfFields rest 0))"
proof (intro conjI impI)
  show "parseField (''line:'' @ v) (tag, rt) = (tag\<lparr>Line := fst (Atoi (TrimSpace v))\<rparr>, rt)"
    by (rule parseField_line)
next
  assume "unsignedPart s \<noteq> [] \<and> list_all isDigit (unsignedPart s)"
  then show "fst (Atoi s) =
          (if hd s = CHR ''-'' then max (- (2 ^ 63)) (- int (decimalValue (unsignedPart s)))
           else min (2 ^ 63 - 1) (int (decimalValue (unsignedPart s))))"
    using Atoi_wellformed [of s] by blast
next
  assume "unsignedPart s = [] \<or>
        (\<not> list_all isDigit (unsignedPart s)
         \<and> decimalValue (takeWhile isDigit (unsignedPart s)) \<le> 2 ^ 64 - 1)"
  then show "fst (Atoi s) = 0"
    using Atoi_malformed [of s] by simp
next
  assume "parseTag row = Inr t"
  then show "- (2 ^ 63) \<le> Line t" and "Line t \<le> 2 ^ 63 - 1"
    using parseTag_Line_range [of row t] by blast+
next
  show "(\<exists>t'. parseTag row = Inr t') = rowParses row"
    by (rule parseTag_Inr_iff)
next
  assume a: "Split row TAB = name # fname # rest \<and> rowParses row"
  then obtain t' where t': "parseTag row = Inr t'"
    using parseTag_Inr_iff [of row] by blast
  with a have "Line t' = lineOfFields rest 0"
    using parseTag_Line [of row name fname rest t'] by blast
  with t' show "\<exists>t'. parseTag row = Inr t' \<and> Line t' = lineOfFields rest 0"
    by blast
qed

lemma Split_rowMalformedLine:
  "Split rowMalformedLine TAB =
     ''foo'' # ''main.ino'' #
     [''/^void foo() {$/;'' @ [DQUOTE], ''kind:function'', ''line:12x'', ''signature:()'',
      ''returntype:void'']"
  by code_simp

lemma rowParses_rowMalformedLine: "rowParses rowMalformedLine"
  by code_simp

lemma lineOfFields_rowMalformedLine:
  "lineOfFields [''/^void foo() {$/;'' @ [DQUOTE], ''kind:function'', ''line:12x'',
     ''signature:()'', ''returntype:void''] 0 = 0"
  by code_simp

theorem line_is_signed_decimal_witness:
  "unsignedPart ''-5'' = ''5'' \<and> list_all isDigit ''5'' \<and> fst (Atoi ''-5'') = - 5
   \<and> unsignedPart ''12x'' = ''12x'' \<and> \<not> list_all isDigit ''12x'' \<and> fst (Atoi ''12x'') = 0
   \<and> parseTag rowFoo = Inr tagFoo
   \<and> - (2 ^ 63) \<le> Line tagFoo \<and> Line tagFoo \<le> 2 ^ 63 - 1
   \<and> rowParses rowMalformedLine
   \<and> (\<exists>t'. parseTag rowMalformedLine = Inr t' \<and> Line t' = 0)"
proof -
  have u1: "unsignedPart ''-5'' = ''5''" and d1: "list_all isDigit ''5''"
    and v1: "decimalValue ''5'' = 5"
    by (simp_all add: unsignedPart_def isDigit_def decimalValue_def digitStep_def)
  have u2: "unsignedPart ''12x'' = ''12x''" and d2: "\<not> list_all isDigit ''12x''"
    and v2: "decimalValue (takeWhile isDigit ''12x'') = 12"
    by (simp_all add: unsignedPart_def isDigit_def decimalValue_def digitStep_def)
  have "fst (Atoi ''-5'') = - 5"
    using line_is_signed_decimal
      [of "[]" emptyTag "[]" "''-5''" rowFoo tagFoo "[]" "[]" "[]"] u1 d1 v1
    by simp
  moreover have "fst (Atoi ''12x'') = 0"
    using line_is_signed_decimal
      [of "[]" emptyTag "[]" "''12x''" rowFoo tagFoo "[]" "[]" "[]"] u2 d2 v2
    by simp
  moreover have "- (2 ^ 63) \<le> Line tagFoo \<and> Line tagFoo \<le> 2 ^ 63 - 1"
    using line_is_signed_decimal
      [of "[]" emptyTag "[]" "[]" rowFoo tagFoo "[]" "[]" "[]"] parseTag_rowFoo
    by blast
  moreover have "\<exists>t'. parseTag rowMalformedLine = Inr t' \<and> Line t' = 0"
    using line_is_signed_decimal
      [of "[]" emptyTag "[]" "[]" rowMalformedLine tagFoo "''foo''" "''main.ino''"
         "[''/^void foo() {$/;'' @ [DQUOTE], ''kind:function'', ''line:12x'',
           ''signature:()'', ''returntype:void'']"]
      Split_rowMalformedLine rowParses_rowMalformedLine lineOfFields_rowMalformedLine
    by (metis (no_types, lifting))
  ultimately show ?thesis
    using u1 d1 u2 d2 parseTag_rowFoo rowParses_rowMalformedLine by simp
qed

text \<open>A row whose \<^verbatim>\<open>line\<close> value holds the two markers in the wrong order is no
  record: the number is found to be 0 without complaint, and the row then fails
  at the slice that takes the code snippet, as every row with misordered markers
  does.\<close>

lemma parseTag_rowMarkersInLine:
  "fst (Atoi ''$/;/^'') = 0 \<and> \<not> rowParses rowMarkersInLine
   \<and> parseTag rowMarkersInLine = Inl SliceBoundsOutOfRange"
  by code_simp

text \<open>The claim as it is written fails for a negative value, which is stored as
  it is, and for a value whose digits overflow before the first byte that is no
  digit, which yields the largest 64-bit number and not 0.\<close>

theorem line_non_negative_counterexample:
  "parseTag rowNegativeLine = Inr (tagFoo\<lparr>Line := - 5\<rparr>)
   \<and> Line (tagFoo\<lparr>Line := - 5\<rparr>) < 0
   \<and> \<not> list_all isDigit ''99999999999999999999x''
   \<and> fst (Atoi ''99999999999999999999x'') = 9223372036854775807"
  by code_simp

section \<open>A parser that is used again\<close>

lemma parseRows_acc:
  "parseRows acc rows =
     (case parseRows [] rows of Inl e \<Rightarrow> Inl e | Inr new \<Rightarrow> Inr (acc @ new))"
proof (induction rows arbitrary: acc)
  case Nil
  then show ?case by simp
next
  case (Cons row rows)
  show ?case
  proof (cases "parseTag row")
    case (Inl e)
    then show ?thesis by simp
  next
    case (Inr tag)
    have "parseRows (acc @ [tag]) rows =
        (case parseRows [] rows of Inl e \<Rightarrow> Inl e | Inr new \<Rightarrow> Inr ((acc @ [tag]) @ new))"
      by (rule Cons.IH)
    moreover have "parseRows [tag] rows =
        (case parseRows [] rows of Inl e \<Rightarrow> Inl e | Inr new \<Rightarrow> Inr ([tag] @ new))"
      using Cons.IH [of "[tag]"] by simp
    ultimately show ?thesis
      using Inr by (simp split: sum.splits)
  qed
qed

lemma Parse_same_tags:
  "tags p = tags q \<Longrightarrow> Parse env p out mf = Parse env q out mf"
  by (simp add: Parse_def)

lemma Parse_retains:
  assumes "Parse env p out mf = Inr (p', protos, line)"
  shows "mainFile p' = mf
     \<and> (\<exists>new. parseRows [] (removeEmpty (Split out NL)) = Inr new
           \<and> length new = length (removeEmpty (Split out NL))
           \<and> tags p' = runPasses env (tags p @ new))
     \<and> protos = toPrototypes p' \<and> line = findLineWhereToInsertPrototypes p'"
proof -
  let ?rows = "removeEmpty (Split out NL)"
  from assms obtain ts where ts: "parseRows (tags p) ?rows = Inr ts"
    by (auto simp: Parse_def Let_def split: sum.splits)
  with parseRows_acc [of "tags p" ?rows] obtain new
    where new: "parseRows [] ?rows = Inr new" and app: "ts = tags p @ new"
    by (auto split: sum.splits)
  from parseRows_append [OF new] have len: "length new = length ?rows" by simp
  from assms ts have p': "p' = \<lparr>tags = runPasses env ts, mainFile = mf\<rparr>"
    by (auto simp: Parse_def Let_def)
  from assms ts have "protos = toPrototypes \<lparr>tags = runPasses env ts, mainFile = mf\<rparr>"
    and "line = findLineWhereToInsertPrototypes \<lparr>tags = runPasses env ts, mainFile = mf\<rparr>"
    by (auto simp: Parse_def Let_def)
  with p' new app len show ?thesis by simp
qed

text \<open>
  Claim C5, as amended: the output of \<^verbatim>\<open>Parse\<close> depends on the Parser instance
  only through the Tag Records it holds; with the same records held, in
  particular on two freshly constructed instances, the same pair of raw output
  and main file path gives the same result, whatever main file the instance
  had before. \<^verbatim>\<open>Parse\<close> does not start from an empty collection: it appends the
  records of the input to the ones the instance holds, runs the passes over the
  whole collection and leaves it in the instance, so what it returns on an
  instance used before is the result of a run over the retained records
  followed by the new ones.
\<close>

theorem Parse_depends_on_retained_tags:
  "(tags p = tags q \<longrightarrow> Parse env p out mf = Parse env q out mf)
   \<and> (Parse env p out mf = Inr (p', protos, line) \<longrightarrow>
        mainFile p' = mf
        \<and> (\<exists>new. parseRows [] (removeEmpty (Split out NL)) = Inr new
              \<and> length new = length (removeEmpty (Split out NL))
              \<and> tags p' = runPasses env (tags p @ new))
        \<and> protos = toPrototypes p' \<and> line = findLineWhereToInsertPrototypes p')"
proof (rule conjI; rule impI)
  assume "tags p = tags q"
  then show "Parse env p out mf = Parse env q out mf"
    by (rule Parse_same_tags)
next
  assume "Parse env p out mf = Inr (p', protos, line)"
  then show "mainFile p' = mf
        \<and> (\<exists>new. parseRows [] (removeEmpty (Split out NL)) = Inr new
              \<and> length new = length (removeEmpty (Split out NL))
              \<and> tags p' = runPasses env (tags p @ new))
        \<and> protos = toPrototypes p' \<and> line = findLineWhereToInsertPrototypes p'"
    by (rule Parse_retains)
qed

lemma Parse_used_foo:
  "Parse exampleEnv usedParser rowFoo ''main.ino'' =
     Inr (\<lparr>tags = [tagBar, tagFoo], mainFile = ''main.ino''\<rparr>,
          [\<lparr>protoName = ''bar'', protoText = ''int bar(int x);'', protoModifiers = [],
            protoLine = 5\<rparr>,
           \<lparr>protoName = ''foo'', protoText = ''void foo();'', protoModifiers = [],
            protoLine = 9\<rparr>],
          Some 5)"
  by code_simp

theorem Parse_depends_on_retained_tags_witness:
  "tags usedParser = tags (usedParser\<lparr>mainFile := ''other.ino''\<rparr>)
   \<and> Parse exampleEnv usedParser rowFoo ''main.ino''
       = Parse exampleEnv (usedParser\<lparr>mainFile := ''other.ino''\<rparr>) rowFoo ''main.ino''
   \<and> (\<exists>new. parseRows [] (removeEmpty (Split rowFoo NL)) = Inr new
         \<and> length new = length (removeEmpty (Split rowFoo NL))
         \<and> [tagBar, tagFoo] = runPasses exampleEnv (tags usedParser @ new))"
proof -
  have same: "tags usedParser = tags (usedParser\<lparr>mainFile := ''other.ino''\<rparr>)"
    by simp
  from Parse_depends_on_retained_tags
    [of usedParser "usedParser\<lparr>mainFile := ''other.ino''\<rparr>" exampleEnv rowFoo "''main.ino''"
       "\<lparr>tags = [tagBar, tagFoo], mainFile = ''main.ino''\<rparr>"
       "[\<lparr>protoName = ''bar'', protoText = ''int bar(int x);'', protoModifiers = [],
            protoLine = 5\<rparr>,
           \<lparr>protoName = ''foo'', protoText = ''void foo();'', protoModifiers = [],
            protoLine = 9\<rparr>]" "Some 5"]
  have "Parse exampleEnv usedParser rowFoo ''main.ino''
       = Parse exampleEnv (usedParser\<lparr>mainFile := ''other.ino''\<rparr>) rowFoo ''main.ino''"
    and "\<exists>new. parseRows [] (removeEmpty (Split rowFoo NL)) = Inr new
         \<and> length new = length (removeEmpty (Split rowFoo NL))
         \<and> tags \<lparr>tags = [tagBar, tagFoo], mainFile = ''main.ino''\<rparr>
             = runPasses exampleEnv (tags usedParser @ new)"
    using same Parse_used_foo by blast+
  with same show ?thesis by simp
qed

text \<open>The claim as it is written fails: a first run on \<^verbatim>\<open>bar\<close> leaves its record
  in the parser, and a second run of that parser on \<^verbatim>\<open>foo\<close> returns two
  Prototype Records and line 5, where a fresh parser returns one and line 9.\<close>

theorem Parse_reused_counterexample:
  "Parse exampleEnv newParser rowBar ''main.ino'' =
     Inr (usedParser,
          [\<lparr>protoName = ''bar'', protoText = ''int bar(int x);'', protoModifiers = [],
            protoLine = 5\<rparr>],
          Some 5)
   \<and> Parse exampleEnv usedParser rowFoo ''main.ino'' =
     Inr (\<lparr>tags = [tagBar, tagFoo], mainFile = ''main.ino''\<rparr>,
          [\<lparr>protoName = ''bar'', protoText = ''int bar(int x);'', protoModifiers = [],
            protoLine = 5\<rparr>,
           \<lparr>protoName = ''foo'', protoText = ''void foo();'', protoModifiers = [],
            protoLine = 9\<rparr>],
          Some 5)
   \<and> Parse exampleEnv newParser rowFoo ''main.ino'' =
     Inr (\<lparr>tags = [tagFoo], mainFile = ''main.ino''\<rparr>,
          [\<lparr>protoName = ''foo'', protoText = ''void foo();'', protoModifiers = [],
            protoLine = 9\<rparr>],
          Some 9)"
  by code_simp

section \<open>The insertion line\<close>

lemma fold_min_Min: "fold min ls l = Min (set (l # ls))"
  by (rule Min.set_eq_fold [symmetric])

lemma survivingLines_image:
  "set (map Line (filter (\<lambda>tag. \<not> SkipMe tag \<and> Filename tag = mf) ts)) =
     Line ` {tag \<in> set ts. \<not> SkipMe tag \<and> Filename tag = mf}"
  by simp

lemma findLine_None:
  "filter (\<lambda>tag. \<not> SkipMe tag \<and> Filename tag = mf) ts = [] \<Longrightarrow>
   findLineWhereToInsertPrototypes \<lparr>tags = ts, mainFile = mf\<rparr> = None"
  by (simp add: findLineWhereToInsertPrototypes_def survivingLines_def)

lemma findLine_Some:
  assumes "filter (\<lambda>tag. \<not> SkipMe tag \<and> Filename tag = mf) ts \<noteq> []"
  shows "findLineWhereToInsertPrototypes \<lparr>tags = ts, mainFile = mf\<rparr> =
     Some (Min (Line ` {tag \<in> set ts. \<not> SkipMe tag \<and> Filename tag = mf}))"
proof -
  let ?ls = "map Line (filter (\<lambda>tag. \<not> SkipMe tag \<and> Filename tag = mf) ts)"
  from assms obtain l ls where ls: "?ls = l # ls"
    by (cases ?ls) auto
  then have "findLineWhereToInsertPrototypes \<lparr>tags = ts, mainFile = mf\<rparr> = Some (fold min ls l)"
    by (simp add: findLineWhereToInsertPrototypes_def survivingLines_def)
  also have "fold min ls l = Min (set ?ls)"
    by (simp only: ls fold_min_Min)
  also have "set ?ls = Line ` {tag \<in> set ts. \<not> SkipMe tag \<and> Filename tag = mf}"
    by (rule survivingLines_image)
  finally show ?thesis .
qed

text \<open>
  Claim C7: the insertion line is the smallest original line number among the
  records that survive and belong to the main file, and an explicit absent
  value, not line 0, when there is none. For every run that returns: the
  parser it leaves holds the records the passes produce from the records of the
  run (those the parser held followed by those of the input) and has the main
  file of the call, and the line returned is the smallest line number among the
  records of that collection that survive and whose file is that main file,
  absent when there is no such record.
\<close>

theorem insertion_line_is_smallest:
  "(survivingLines p = [] \<longrightarrow> findLineWhereToInsertPrototypes p = None)
   \<and> (survivingLines p \<noteq> [] \<longrightarrow>
        findLineWhereToInsertPrototypes p = Some (Min (set (survivingLines p))))
   \<and> set (survivingLines p) =
        Line ` {tag \<in> set (tags p). \<not> SkipMe tag \<and> Filename tag = mainFile p}
   \<and> (parseRows (tags q) (removeEmpty (Split out NL)) = Inr ts \<longrightarrow>
        (\<exists>q' protos line.
            Parse env q out mf = Inr (q', protos, line)
            \<and> tags q' = runPasses env ts \<and> mainFile q' = mf
            \<and> (filter (\<lambda>tag. \<not> SkipMe tag \<and> Filename tag = mf) (runPasses env ts) = [] \<longrightarrow>
                 line = None)
            \<and> (filter (\<lambda>tag. \<not> SkipMe tag \<and> Filename tag = mf) (runPasses env ts) \<noteq> [] \<longrightarrow>
                 line = Some (Min (Line `
                   {tag \<in> set (runPasses env ts). \<not> SkipMe tag \<and> Filename tag = mf})))))
   \<and> (Parse env q out mf = Inr (r, protos', line') \<longrightarrow>
        mainFile r = mf
        \<and> (\<exists>new. parseRows [] (removeEmpty (Split out NL)) = Inr new
              \<and> tags r = runPasses env (tags q @ new))
        \<and> line' = findLineWhereToInsertPrototypes r)"
proof (intro conjI)
  show "survivingLines p = [] \<longrightarrow> findLineWhereToInsertPrototypes p = None"
    by (simp add: findLineWhereToInsertPrototypes_def)
  show "survivingLines p \<noteq> [] \<longrightarrow>
        findLineWhereToInsertPrototypes p = Some (Min (set (survivingLines p)))"
    by (cases "survivingLines p")
      (simp_all add: findLineWhereToInsertPrototypes_def fold_min_Min)
  show "set (survivingLines p) =
        Line ` {tag \<in> set (tags p). \<not> SkipMe tag \<and> Filename tag = mainFile p}"
    by (simp add: survivingLines_def)
  show "parseRows (tags q) (removeEmpty (Split out NL)) = Inr ts \<longrightarrow>
        (\<exists>q' protos line.
            Parse env q out mf = Inr (q', protos, line)
            \<and> tags q' = runPasses env ts \<and> mainFile q' = mf
            \<and> (filter (\<lambda>tag. \<not> SkipMe tag \<and> Filename tag = mf) (runPasses env ts) = [] \<longrightarrow>
                 line = None)
            \<and> (filter (\<lambda>tag. \<not> SkipMe tag \<and> Filename tag = mf) (runPasses env ts) \<noteq> [] \<longrightarrow>
                 line = Some (Min (Line `
                   {tag \<in> set (runPasses env ts). \<not> SkipMe tag \<and> Filename tag = mf}))))"
  proof
    assume rows: "parseRows (tags q) (removeEmpty (Split out NL)) = Inr ts"
    let ?q' = "\<lparr>tags = runPasses env ts, mainFile = mf\<rparr>"
    let ?line = "findLineWhereToInsertPrototypes ?q'"
    have "Parse env q out mf = Inr (?q', toPrototypes ?q', ?line)"
      using rows by (rule Parse_returns)
    moreover have "tags ?q' = runPasses env ts" and "mainFile ?q' = mf"
      by simp_all
    moreover have
      "filter (\<lambda>tag. \<not> SkipMe tag \<and> Filename tag = mf) (runPasses env ts) = [] \<longrightarrow>
         ?line = None"
      using findLine_None [of mf "runPasses env ts"] by blast
    moreover have
      "filter (\<lambda>tag. \<not> SkipMe tag \<and> Filename tag = mf) (runPasses env ts) \<noteq> [] \<longrightarrow>
         ?line = Some (Min (Line `
           {tag \<in> set (runPasses env ts). \<not> SkipMe tag \<and> Filename tag = mf}))"
      using findLine_Some [of mf "runPasses env ts"] by blast
    ultimately show "\<exists>q' protos line.
            Parse env q out mf = Inr (q', protos, line)
            \<and> tags q' = runPasses env ts \<and> mainFile q' = mf
            \<and> (filter (\<lambda>tag. \<not> SkipMe tag \<and> Filename tag = mf) (runPasses env ts) = [] \<longrightarrow>
                 line = None)
            \<and> (filter (\<lambda>tag. \<not> SkipMe tag \<and> Filename tag = mf) (runPasses env ts) \<noteq> [] \<longrightarrow>
                 line = Some (Min (Line `
                   {tag \<in> set (runPasses env ts). \<not> SkipMe tag \<and> Filename tag = mf})))"
      by blast
  qed
  show "Parse env q out mf = Inr (r, protos', line') \<longrightarrow>
        mainFile r = mf
        \<and> (\<exists>new. parseRows [] (removeEmpty (Split out NL)) = Inr new
              \<and> tags r = runPasses env (tags q @ new))
        \<and> line' = findLineWhereToInsertPrototypes r"
    using Parse_retains [of env q out mf r protos' line'] by blast
qed

lemma rows_linesOutput:
  "parseRows (tags newParser) (removeEmpty (Split linesOutput NL))
     = Inr [tagFoo\<lparr>Line := 12\<rparr>, tagBar\<lparr>Line := 45\<rparr>, tagUtil, tagBaz]"
  by code_simp

lemma survivors_linesOutput:
  "map (\<lambda>tag. (Line tag, Filename tag, SkipMe tag))
     (runPasses exampleEnv [tagFoo\<lparr>Line := 12\<rparr>, tagBar\<lparr>Line := 45\<rparr>, tagUtil, tagBaz])
   = [(12, ''main.ino'', False), (45, ''main.ino'', False), (3, ''util.h'', False),
      (7, ''main.ino'', False)]"
  by code_simp

lemma main_lines_linesOutput:
  "map Line (filter (\<lambda>tag. \<not> SkipMe tag \<and> Filename tag = ''main.ino'')
     (runPasses exampleEnv [tagFoo\<lparr>Line := 12\<rparr>, tagBar\<lparr>Line := 45\<rparr>, tagUtil, tagBaz]))
   = [12, 45, 7]"
  by code_simp

lemma main_lines_declared:
  "filter (\<lambda>tag. \<not> SkipMe tag \<and> Filename tag = ''main.ino'')
     (runPasses exampleEnv [tagFooDecl, tagFoo]) = []"
  by code_simp

theorem insertion_line_is_smallest_witness:
  "survivingLines threeSurvivors = [12, 45, 7]
   \<and> findLineWhereToInsertPrototypes threeSurvivors = Some 7
   \<and> survivingLines newParser = []
   \<and> findLineWhereToInsertPrototypes newParser = None
   \<and> parseRows (tags newParser) (removeEmpty (Split linesOutput NL))
       = Inr [tagFoo\<lparr>Line := 12\<rparr>, tagBar\<lparr>Line := 45\<rparr>, tagUtil, tagBaz]
   \<and> (\<exists>q' protos.
         Parse exampleEnv newParser linesOutput ''main.ino'' = Inr (q', protos, Some 7)
         \<and> mainFile q' = ''main.ino'')
   \<and> (\<exists>q' protos.
         Parse exampleEnv newParser (rowFooDecl @ [NL] @ rowFoo @ [NL]) ''main.ino''
           = Inr (q', protos, None))
   \<and> Some 5 = findLineWhereToInsertPrototypes \<lparr>tags = [tagBar, tagFoo], mainFile = ''main.ino''\<rparr>"
proof -
  let ?ts = "[tagFoo\<lparr>Line := 12\<rparr>, tagBar\<lparr>Line := 45\<rparr>, tagUtil, tagBaz]"
  let ?P = "\<lambda>tag. \<not> SkipMe tag \<and> Filename tag = ''main.ino''"
  have l: "survivingLines threeSurvivors = [12, 45, 7]"
    by code_simp
  have e: "survivingLines newParser = []"
    by (simp add: survivingLines_def newParser_def)
  note inst = insertion_line_is_smallest
    [of threeSurvivors newParser linesOutput ?ts exampleEnv "''main.ino''"
       "\<lparr>tags = [tagBar, tagFoo], mainFile = ''main.ino''\<rparr>" "[]" None]
  from inst have "survivingLines threeSurvivors \<noteq> [] \<longrightarrow>
      findLineWhereToInsertPrototypes threeSurvivors
        = Some (Min (set (survivingLines threeSurvivors)))"
    by blast
  then have three: "findLineWhereToInsertPrototypes threeSurvivors = Some 7"
    by (simp add: l)
  from insertion_line_is_smallest
    [of newParser newParser "rowFooDecl @ [NL] @ rowFoo @ [NL]" "[tagFooDecl, tagFoo]"
       exampleEnv "''main.ino''" newParser "[]" None]
  have none: "survivingLines newParser = [] \<longrightarrow> findLineWhereToInsertPrototypes newParser = None"
    and declared: "parseRows (tags newParser)
          (removeEmpty (Split (rowFooDecl @ [NL] @ rowFoo @ [NL]) NL)) = Inr [tagFooDecl, tagFoo] \<longrightarrow>
        (\<exists>q' protos line.
            Parse exampleEnv newParser (rowFooDecl @ [NL] @ rowFoo @ [NL]) ''main.ino''
              = Inr (q', protos, line)
            \<and> tags q' = runPasses exampleEnv [tagFooDecl, tagFoo] \<and> mainFile q' = ''main.ino''
            \<and> (filter ?P (runPasses exampleEnv [tagFooDecl, tagFoo]) = [] \<longrightarrow> line = None)
            \<and> (filter ?P (runPasses exampleEnv [tagFooDecl, tagFoo]) \<noteq> [] \<longrightarrow>
                 line = Some (Min (Line `
                   {tag \<in> set (runPasses exampleEnv [tagFooDecl, tagFoo]). ?P tag}))))"
    by blast+
  from none e have empty: "findLineWhereToInsertPrototypes newParser = None"
    by simp
  have drows: "parseRows (tags newParser)
      (removeEmpty (Split (rowFooDecl @ [NL] @ rowFoo @ [NL]) NL)) = Inr [tagFooDecl, tagFoo]"
    unfolding rows_decl_foo
    by (simp add: newParser_def parseTag_rowFooDecl parseTag_rowFoo)
  from declared drows main_lines_declared
  have run_none: "\<exists>q' protos.
         Parse exampleEnv newParser (rowFooDecl @ [NL] @ rowFoo @ [NL]) ''main.ino''
           = Inr (q', protos, None)"
    by blast
  from inst rows_linesOutput obtain q' protos line
    where run: "Parse exampleEnv newParser linesOutput ''main.ino'' = Inr (q', protos, line)"
      and mf: "mainFile q' = ''main.ino''"
      and some: "filter ?P (runPasses exampleEnv ?ts) \<noteq> [] \<longrightarrow>
          line = Some (Min (Line ` {tag \<in> set (runPasses exampleEnv ?ts). ?P tag}))"
    by blast
  have nonempty: "filter ?P (runPasses exampleEnv ?ts) \<noteq> []"
    using main_lines_linesOutput by auto
  have "Line ` {tag \<in> set (runPasses exampleEnv ?ts). ?P tag}
      = set (map Line (filter ?P (runPasses exampleEnv ?ts)))"
    by (rule survivingLines_image [symmetric])
  also have "\<dots> = set [12, 45, 7]"
    by (simp only: main_lines_linesOutput)
  finally have "Min (Line ` {tag \<in> set (runPasses exampleEnv ?ts). ?P tag}) = 7"
    by simp
  with some nonempty have "line = Some 7" by simp
  with run mf have run_some: "\<exists>q' protos.
         Parse exampleEnv newParser linesOutput ''main.ino'' = Inr (q', protos, Some 7)
         \<and> mainFile q' = ''main.ino''"
    by blast
  from insertion_line_is_smallest
    [of newParser usedParser rowFoo "[]" exampleEnv "''main.ino''"
       "\<lparr>tags = [tagBar, tagFoo], mainFile = ''main.ino''\<rparr>"
       "[\<lparr>protoName = ''bar'', protoText = ''int bar(int x);'', protoModifiers = [],
            protoLine = 5\<rparr>,
           \<lparr>protoName = ''foo'', protoText = ''void foo();'', protoModifiers = [],
            protoLine = 9\<rparr>]" "Some 5"]
    Parse_used_foo
  have used: "Some 5
      = findLineWhereToInsertPrototypes \<lparr>tags = [tagBar, tagFoo], mainFile = ''main.ino''\<rparr>"
    by blast
  from l three e empty rows_linesOutput run_some run_none used show ?thesis
    by blast
qed


end
